theory Spec2Isabelle
  imports Main
begin

section \<open>JavaScript values and property lookup\<close>

text \<open>
  The result of reading a property \<open>obj[key]\<close> of a plain JavaScript object: the own
  property stored under the key, a member that the object inherits from
  \<open>Object.prototype\<close> (such as \<open>toString\<close>), or \<open>undefined\<close>. \<open>Null\<close> is the
  JavaScript \<open>null\<close>. When an assignment under \<open>__proto__\<close> has made an object \<open>p\<close> the
  prototype of \<open>obj\<close>, a key that \<open>obj\<close> does not own is looked up in \<open>p\<close>:
  \<open>Member p key\<close> stands for the value of \<open>p[key]\<close>, whatever it is.
\<close>

datatype 'a jsval = Undefined | Null | Own 'a | Inherited string | Member 'a string

text \<open>
  The property names every plain object (\<open>{}\<close>, or an object read from JSON) inherits
  from \<open>Object.prototype\<close>. All of them hold functions or objects, hence truthy values.
\<close>

definition object_prototype_keys :: "string list" where
  "object_prototype_keys =
     [''constructor'', ''hasOwnProperty'', ''isPrototypeOf'', ''propertyIsEnumerable'',
      ''toLocaleString'', ''toString'', ''valueOf'', ''__proto__'',
      ''__defineGetter__'', ''__defineSetter__'', ''__lookupGetter__'', ''__lookupSetter__'']"

text \<open>
  \<open>obj[key]\<close> on a plain object whose own properties are the map \<open>props\<close> and whose
  prototype is \<open>Object.prototype\<close>.
\<close>

definition js_get :: "(string \<rightharpoonup> 'a) \<Rightarrow> string \<Rightarrow> 'a jsval" where
  "js_get props key =
     (case props key of
        Some v \<Rightarrow> Own v
      | None \<Rightarrow> if key \<in> set object_prototype_keys then Inherited key else Undefined)"

text \<open>
  \<open>obj[key]\<close> on an object that is written to as well, one of the two registries of the
  session: \<open>props\<close> are its own properties and \<open>proto\<close> is the object that an assignment
  \<open>obj['__proto__'] = p\<close> has made its prototype, if there was one. Such an assignment
  stores no property: it calls the setter that \<open>Object.prototype\<close> has under that name.
  Afterwards \<open>obj['__proto__']\<close> is \<open>p\<close>, and every other key that \<open>obj\<close> does not own
  is looked up in \<open>p\<close>.
\<close>

definition registry_get :: "(string \<rightharpoonup> 'a) \<Rightarrow> 'a option \<Rightarrow> string \<Rightarrow> 'a jsval" where
  "registry_get props proto key =
     (case proto of
        None \<Rightarrow> js_get props key
      | Some p \<Rightarrow>
          (case props key of
             Some v \<Rightarrow> Own v
           | None \<Rightarrow> if key = ''__proto__'' then Own p else Member p key))"

text \<open>
  Truthiness of the result of a lookup in an object read from JSON whose own properties
  are strings. Such a lookup never yields \<open>Member\<close>.
\<close>

fun truthy :: "string jsval \<Rightarrow> bool" where
  "truthy Undefined = False"
| "truthy Null = False"
| "truthy (Own s) = (s \<noteq> [])"
| "truthy (Inherited k) = True"

text \<open>
  The order in which \<open>for ... in\<close> and \<open>Object.keys\<close> enumerate the own properties of an
  object: first the names that are array indices (decimal numerals without a leading
  zero, below \<open>2^32 - 1\<close>) in ascending numeric order, then the other names in the order
  in which the properties were created.
\<close>

text \<open>A decimal digit, and its value: its position among the ten digits.\<close>

definition is_digit :: "char \<Rightarrow> bool" where
  "is_digit c = (c \<in> set ''0123456789'')"

definition digit_value :: "char \<Rightarrow> nat" where
  "digit_value c = length (takeWhile (\<lambda>d. d \<noteq> c) ''0123456789'')"

definition decimal :: "string \<Rightarrow> nat" where
  "decimal s = foldl (\<lambda>n c. 10 * n + digit_value c) 0 s"

definition is_array_index :: "string \<Rightarrow> bool" where
  "is_array_index s =
     (s \<noteq> [] \<and> list_all is_digit s \<and> (length s = 1 \<or> hd s \<noteq> CHR ''0'') \<and>
      decimal s < 4294967295)"

text \<open>
  An object is given by the list of its own properties in the order of their creation;
  for an object read from JSON that is the order of declaration in the file. An object
  has one property per name: an entry of the list whose name occurs earlier in the list
  is not part of the object.
\<close>

fun own_properties_from :: "string list \<Rightarrow> (string \<times> 'a) list \<Rightarrow> (string \<times> 'a) list" where
  "own_properties_from seen [] = []"
| "own_properties_from seen ((k, v) # rest) =
     (if k \<in> set seen then own_properties_from seen rest
      else (k, v) # own_properties_from (k # seen) rest)"

definition own_properties :: "(string \<times> 'a) list \<Rightarrow> (string \<times> 'a) list" where
  "own_properties obj = own_properties_from [] obj"

definition for_in :: "(string \<times> 'a) list \<Rightarrow> (string \<times> 'a) list" where
  "for_in obj =
     sort_key (\<lambda>kv. decimal (fst kv)) (filter (\<lambda>kv. is_array_index (fst kv)) (own_properties obj))
       @ filter (\<lambda>kv. \<not> is_array_index (fst kv)) (own_properties obj)"

section \<open>Data model\<close>

text \<open>
  Errors. The source throws \<open>Error\<close> objects that differ by message; each message gets a
  constructor, named as in the specification's taxonomy where it has a name.
  \<open>TypeError\<close> is the error JavaScript raises on a property read of \<open>undefined\<close> or
  \<open>null\<close>. The remaining constructors are failures of the collaborators (asset store,
  scene, renderer, input manager).
\<close>

datatype error =
    InvalidConstructorArgument
  | AlreadyInitialized
  | ConcurrentLoadError
  | SceneNameNotString
  | UnknownScene string
  | NoScenesDefined
  | TypeError
  | AssetNotFound string
  | AssetParseError string
  | SceneLoadError string
  | CollaboratorError string

text \<open>
  \<open>GameJSON\<close> of \<open>types.d.ts\<close>: three optional fields. The two objects are given by
  their properties in the order of declaration. The field \<open>gameObjectTypes\<close> of the
  manifest is called \<open>declaredGameObjectTypes\<close> here, since the session has a field of
  the same name.
\<close>

record GameJSON =
  initialScene :: "string option"
  scenes :: "(string \<times> string) list option"
  declaredGameObjectTypes :: "(string \<times> string) list option"

text \<open>A loaded JSON asset: its path and its data, as far as \<open>Game\<close> reads them.\<close>

record JSONAsset =
  path :: string
  data :: GameJSON

datatype FileSystemDirectoryHandle = DirectoryHandle string

text \<open>The first argument of the constructor, by the two tests the constructor makes.\<close>

datatype ctor_arg =
    ArgString string
  | ArgDirHandle FileSystemDirectoryHandle
  | ArgOther

text \<open>The argument of \<open>loadScene\<close>, by the \<open>typeof\<close> test made on it.\<close>

datatype scene_arg = JString string | JNonString

text \<open>Of \<open>GameOptions\<close>, the two fields that \<open>Game\<close> reads.\<close>

record GameOptions =
  rendererOptions :: "string option"
  inputOptions :: "string option"

text \<open>What the asset store is constructed with: \<open>this.baseURL || this.dirHandle\<close>.\<close>

datatype base = BaseURL string | BaseDirHandle FileSystemDirectoryHandle | BaseNull

datatype AssetStore = AssetStore base

datatype Renderer = Renderer "string option"

datatype InputManager = InputManager "string option"

datatype GameObject = GameObject (obj_name: string) (children: "GameObject list")

text \<open>
  A class passed to \<open>registerGameObjectClasses\<close>. Its code is not part of \<open>Game\<close>; it is
  given by its name and by the names under which a property read on the class object
  finds a truthy value (its static members and what it inherits).
\<close>

datatype GameObjectClass = GameObjectClass (class_name: string) (truthy_members: "string list")

datatype GameRef = ThisGame

text \<open>
  A scene, as far as \<open>Game\<close> touches it: the constructor argument, the fields \<open>game\<close>
  and \<open>active\<close> that \<open>loadScene\<close> writes, and its game objects. \<open>loaded\<close> is not a
  field of the source: it records that \<open>Scene.load\<close> has completed.
\<close>

record Scene =
  jsonAssetPath :: "string jsval"
  game :: "GameRef option"
  active :: bool
  loaded :: bool
  gameObjects :: "GameObject list"

text \<open>
  The calls \<open>Game\<close> makes to its collaborators, in the order they are made.
  Scenes are named by their constructor argument, game objects by their name.
\<close>

datatype event =
    AssetStoreLoad string
  | NewRenderer
  | NewInputManager
  | SceneBeforeUnloaded "string jsval"
  | ObjectBeforeUnloaded string
  | SceneLoadStarted "string jsval"
  | SceneLoadFinished "string jsval"
  | SceneAfterLoaded "string jsval"
  | ObjectAfterLoaded string
  | RendererPlay
  | RendererPause

text \<open>
  The session. The fields are those of class \<open>Game\<close>; a field the constructor leaves
  unset (\<open>renderer\<close>, \<open>assetStore\<close>, \<open>inputManager\<close>) is \<open>None\<close>. The two registries are
  objects: \<open>gameObjectTypes\<close> and \<open>gameObjectClasses\<close> hold their own properties, and
  \<open>gameObjectTypes_proto\<close> and \<open>gameObjectClasses_proto\<close> the object that has replaced
  their prototype, if any. Two components are not fields of the source: \<open>trace\<close> is the
  history of calls to collaborators, and \<open>discarded\<close> holds the scenes the session has
  let go of, as \<open>loadScene\<close> left them.
\<close>

record Game =
  gameOptions :: GameOptions
  initialized :: bool
  baseURL :: "string option"
  dirHandle :: "FileSystemDirectoryHandle option"
  gameJSONAsset :: "JSONAsset option"
  renderer :: "Renderer option"
  scene :: "Scene option"
  assetStore :: "AssetStore option"
  inputManager :: "InputManager option"
  gameObjectTypes :: "string \<rightharpoonup> JSONAsset"
  gameObjectTypes_proto :: "JSONAsset option"
  gameObjectClasses :: "string \<rightharpoonup> GameObjectClass"
  gameObjectClasses_proto :: "GameObjectClass option"
  loadingScene :: bool
  trace :: "event list"
  discarded :: "Scene list"

text \<open>
  The collaborators whose code is not part of \<open>Game\<close>, as parameters: what
  \<open>AssetStore.load\<close> yields for a path, whether the constructors of \<open>Renderer\<close> and
  \<open>InputManager\<close> succeed, what loading the scene file behind a constructor argument
  yields (the game objects built from it, or a failure), and whether the renderer's
  \<open>play\<close> and \<open>pause\<close> return or throw.
\<close>

record env =
  store_load :: "base \<Rightarrow> string \<Rightarrow> error + JSONAsset"
  new_Renderer :: "string option \<Rightarrow> error + Renderer"
  new_InputManager :: "Renderer \<Rightarrow> string option \<Rightarrow> error + InputManager"
  build_scene :: "string jsval \<Rightarrow> error + GameObject list"
  renderer_play :: "Renderer \<Rightarrow> error option"
  renderer_pause :: "Renderer \<Rightarrow> error option"

section \<open>The scene, as \<open>Game\<close> uses it\<close>

text \<open>
  Modelled from the spec: class \<open>Scene\<close> is not among the sources. A new scene is in no
  session, not active and has no game objects yet.
\<close>

definition new_Scene :: "string jsval \<Rightarrow> Scene" where
  "new_Scene p =
     \<lparr>jsonAssetPath = p, game = None, active = False, loaded = False, gameObjects = []\<rparr>"

text \<open>
  Modelled from the spec: \<open>Scene.load(game)\<close>, absent from the sources, loads the scene
  file and builds the game-object tree. On success the scene is attached to the session,
  active, and owns the tree; on failure it is left as it was.
\<close>

definition Scene_load :: "env \<Rightarrow> Scene \<Rightarrow> error + Scene" where
  "Scene_load e s =
     (case build_scene e (jsonAssetPath s) of
        Inl err \<Rightarrow> Inl err
      | Inr objs \<Rightarrow>
          Inr (s\<lparr>game := Some ThisGame, active := True, loaded := True, gameObjects := objs\<rparr>))"

text \<open>
  Modelled from the spec: \<open>Scene.forEachGameObject\<close>, absent from the sources, visits
  every game object of the scene in pre-order.
\<close>

fun preorder :: "GameObject \<Rightarrow> GameObject list" where
  "preorder (GameObject n cs) = GameObject n cs # concat (map preorder cs)"

definition forEachGameObject :: "Scene \<Rightarrow> GameObject list" where
  "forEachGameObject s = concat (map preorder (gameObjects s))"

section \<open>Class \<open>Game\<close>\<close>

text \<open>One trailing slash is removed: \<open>endsWith('/')\<close>, then \<open>slice(0, length - 1)\<close>.\<close>

definition strip_slash :: "string \<Rightarrow> string" where
  "strip_slash s = (if s \<noteq> [] \<and> last s = CHR ''/'' then butlast s else s)"

text \<open>
  The constructor. It throws on an argument that is neither a string nor a directory
  handle; a call that throws yields no session.
\<close>

definition constructor_Game :: "ctor_arg \<Rightarrow> GameOptions option \<Rightarrow> error + Game" where
  "constructor_Game baseURLorDirHandle opts =
     (let options = (case opts of
                       Some x \<Rightarrow> x
                     | None \<Rightarrow> \<lparr>rendererOptions = None, inputOptions = None\<rparr>)
      in case baseURLorDirHandle of
           ArgOther \<Rightarrow> Inl InvalidConstructorArgument
         | ArgString s \<Rightarrow>
             Inr \<lparr>gameOptions = options, initialized = False,
                  baseURL = Some (strip_slash s), dirHandle = None,
                  gameJSONAsset = None, renderer = None, scene = None,
                  assetStore = None, inputManager = None,
                  gameObjectTypes = Map.empty, gameObjectTypes_proto = None,
                  gameObjectClasses = Map.empty, gameObjectClasses_proto = None,
                  loadingScene = False, trace = [], discarded = []\<rparr>
         | ArgDirHandle h \<Rightarrow>
             Inr \<lparr>gameOptions = options, initialized = False,
                  baseURL = None, dirHandle = Some h,
                  gameJSONAsset = None, renderer = None, scene = None,
                  assetStore = None, inputManager = None,
                  gameObjectTypes = Map.empty, gameObjectTypes_proto = None,
                  gameObjectClasses = Map.empty, gameObjectClasses_proto = None,
                  loadingScene = False, trace = [], discarded = []\<rparr>)"

text \<open>\<open>this.baseURL || this.dirHandle\<close>: the empty string is falsy.\<close>

definition store_base :: "Game \<Rightarrow> base" where
  "store_base g =
     (case baseURL g of
        Some u \<Rightarrow>
          if u \<noteq> [] then BaseURL u
          else (case dirHandle g of Some h \<Rightarrow> BaseDirHandle h | None \<Rightarrow> BaseNull)
      | None \<Rightarrow> (case dirHandle g of Some h \<Rightarrow> BaseDirHandle h | None \<Rightarrow> BaseNull))"

text \<open>\<open>this.assetStore.load(p)\<close>: the call is recorded, then succeeds or throws.\<close>

definition assetStore_load :: "env \<Rightarrow> string \<Rightarrow> Game \<Rightarrow> (error + JSONAsset) \<times> Game" where
  "assetStore_load e p g =
     (case assetStore g of
        None \<Rightarrow> (Inl TypeError, g)
      | Some (AssetStore b) \<Rightarrow> (store_load e b p, g\<lparr>trace := trace g @ [AssetStoreLoad p]\<rparr>))"

text \<open>
  The loop of \<open>_init\<close> over the declared game-object types, given the properties that
  \<open>for ... in\<close> enumerates: each descriptor is loaded and assigned to the registry
  before the next one is looked at; a failing load ends the loop. The assignment
  \<open>this.gameObjectTypes[gameObjectType] = ...\<close> stores a property, except under the
  name \<open>__proto__\<close>, where it replaces the prototype of the registry.
\<close>

fun load_types :: "env \<Rightarrow> (string \<times> string) list \<Rightarrow> Game \<Rightarrow> error option \<times> Game" where
  "load_types e [] g = (None, g)"
| "load_types e ((gameObjectType, p) # rest) g =
     (case assetStore_load e p g of
        (Inl err, g1) \<Rightarrow> (Some err, g1)
      | (Inr a, g1) \<Rightarrow>
          load_types e rest
            (if gameObjectType = ''__proto__'' then g1\<lparr>gameObjectTypes_proto := Some a\<rparr>
             else g1\<lparr>gameObjectTypes := (gameObjectTypes g1)(gameObjectType \<mapsto> a)\<rparr>))"

text \<open>
  Method \<open>_init\<close>. Like every method that can throw, it returns the error thrown, if
  any, together with the session as the call leaves it.
\<close>

definition init :: "env \<Rightarrow> Game \<Rightarrow> error option \<times> Game" where
  "init e g =
     (if initialized g then (Some AlreadyInitialized, g)
      else
        let g1 = g\<lparr>assetStore := Some (AssetStore (store_base g))\<rparr> in
        (case assetStore_load e ''game.json'' g1 of
           (Inl err, g2) \<Rightarrow> (Some err, g2)
         | (Inr a, g2) \<Rightarrow>
             let g3 = g2\<lparr>gameJSONAsset := Some a\<rparr>;
                 types = (case declaredGameObjectTypes (data a) of Some ts \<Rightarrow> ts | None \<Rightarrow> [])
             in (case load_types e (for_in types) g3 of
                   (Some err, g4) \<Rightarrow> (Some err, g4)
                 | (None, g4) \<Rightarrow>
                     let g5 = g4\<lparr>trace := trace g4 @ [NewRenderer]\<rparr> in
                     (case new_Renderer e (rendererOptions (gameOptions g5)) of
                        Inl err \<Rightarrow> (Some err, g5)
                      | Inr r \<Rightarrow>
                          let g6 = g5\<lparr>renderer := Some r,
                                     trace := trace g5 @ [NewInputManager]\<rparr> in
                          (case new_InputManager e r (inputOptions (gameOptions g6)) of
                             Inl err \<Rightarrow> (Some err, g6)
                           | Inr im \<Rightarrow>
                               (None, g6\<lparr>inputManager := Some im, initialized := True\<rparr>))))))"

text \<open>
  \<open>registerGameObjectClasses\<close> assigns each class to the registry under its type name,
  in the order in which \<open>for ... in\<close> enumerates the argument. As in \<open>_init\<close>, the
  assignment under the name \<open>__proto__\<close> replaces the prototype of the registry.
\<close>

definition registerGameObjectClasses :: "(string \<times> GameObjectClass) list \<Rightarrow> Game \<Rightarrow> Game" where
  "registerGameObjectClasses types g =
     fold (\<lambda>(t, klass) g.
             if t = ''__proto__'' then g\<lparr>gameObjectClasses_proto := Some klass\<rparr>
             else g\<lparr>gameObjectClasses := (gameObjectClasses g)(t \<mapsto> klass)\<rparr>)
       (for_in types) g"

definition getGameObjectTypeJSON :: "Game \<Rightarrow> string \<Rightarrow> JSONAsset jsval" where
  "getGameObjectTypeJSON g t = registry_get (gameObjectTypes g) (gameObjectTypes_proto g) t"

text \<open>
  \<open>klass || null\<close>. A registered class is a constructor and an inherited member of
  \<open>Object.prototype\<close> is a function or an object: both are truthy. A member found in a
  class that has replaced the prototype is truthy or not as the class says.
\<close>

definition getGameObjectClass :: "Game \<Rightarrow> string \<Rightarrow> GameObjectClass jsval" where
  "getGameObjectClass g t =
     (let klass = registry_get (gameObjectClasses g) (gameObjectClasses_proto g) t
      in case klass of
           Undefined \<Rightarrow> Null
         | Null \<Rightarrow> Null
         | Member p k \<Rightarrow> if k \<in> set (truthy_members p) then klass else Null
         | _ \<Rightarrow> klass)"

text \<open>
  The block of \<open>loadScene\<close> that unloads the current scene: its hook, the hooks of its
  game objects, then \<open>game\<close> and \<open>active\<close> of the scene are reset and the slot is
  cleared. The hooks are recorded as calls; what a hook does beyond that, and a hook
  that throws, are not modelled.
\<close>

definition unload_current :: "Game \<Rightarrow> Game" where
  "unload_current g =
     (case scene g of
        None \<Rightarrow> g
      | Some s \<Rightarrow>
          g\<lparr>scene := None,
            trace := trace g @ SceneBeforeUnloaded (jsonAssetPath s)
                       # map (\<lambda>obj. ObjectBeforeUnloaded (obj_name obj)) (forEachGameObject s),
            discarded := discarded g @ [s\<lparr>game := None, active := False\<rparr>]\<rparr>)"

text \<open>The post-load hooks of a scene and of its game objects, in the order of the calls.\<close>

definition afterLoaded_hooks :: "Scene \<Rightarrow> event list" where
  "afterLoaded_hooks s =
     SceneAfterLoaded (jsonAssetPath s)
       # map (\<lambda>obj. ObjectAfterLoaded (obj_name obj)) (forEachGameObject s)"

text \<open>
  Method \<open>loadScene\<close>. The new scene is put into the slot before \<open>Scene.load\<close> is
  awaited, so the session returned when that load fails is also the session as it is
  while the load is pending.
\<close>

definition loadScene :: "env \<Rightarrow> scene_arg \<Rightarrow> Game \<Rightarrow> error option \<times> Game" where
  "loadScene e sceneName g =
     (if loadingScene g then (Some ConcurrentLoadError, g)
      else
        let g1 = g\<lparr>loadingScene := True\<rparr> in
        (case sceneName of
           JNonString \<Rightarrow> (Some SceneNameNotString, g1)
         | JString name \<Rightarrow>
             (case (if initialized g1 then (None, g1) else init e g1) of
                (Some err, g2) \<Rightarrow> (Some err, g2)
              | (None, g2) \<Rightarrow>
                  let g3 = unload_current g2 in
                  (case gameJSONAsset g3 of
                     None \<Rightarrow> (Some TypeError, g3)
                   | Some a \<Rightarrow>
                       (case scenes (data a) of
                          None \<Rightarrow> (Some TypeError, g3)
                        | Some sc \<Rightarrow>
                            let sceneJSONassetPath = js_get (map_of sc) name in
                            if \<not> truthy sceneJSONassetPath then (Some (UnknownScene name), g3)
                            else
                              let s = new_Scene sceneJSONassetPath;
                                  g4 = g3\<lparr>scene := Some s,
                                          trace := trace g3 @ [SceneLoadStarted sceneJSONassetPath]\<rparr>
                              in (case Scene_load e s of
                                    Inl err \<Rightarrow> (Some err, g4)
                                  | Inr s' \<Rightarrow>
                                      (None,
                                       g4\<lparr>scene := Some s', loadingScene := False,
                                          trace := trace g4
                                            @ SceneLoadFinished sceneJSONassetPath
                                            # afterLoaded_hooks s'\<rparr>)))))))"

text \<open>
  The branch of \<open>play\<close> taken when no scene is in the slot: the names of the declared
  scenes as \<open>Object.keys\<close> lists them, \<open>initialScene || sceneNames[0]\<close> (the empty
  string is falsy), and the call of \<open>loadScene\<close>.
\<close>

definition load_initial_scene :: "env \<Rightarrow> Game \<Rightarrow> error option \<times> Game" where
  "load_initial_scene e g =
     (case gameJSONAsset g of
        None \<Rightarrow> (Some TypeError, g)
      | Some a \<Rightarrow>
          let sceneNames =
                map fst (for_in (case scenes (data a) of Some sc \<Rightarrow> sc | None \<Rightarrow> [])) in
          (case sceneNames of
             [] \<Rightarrow> (Some NoScenesDefined, g)
           | first # _ \<Rightarrow>
               let initial = (case initialScene (data a) of
                                Some n \<Rightarrow> if n \<noteq> [] then n else first
                              | None \<Rightarrow> first)
               in loadScene e (JString initial) g))"

text \<open>
  Method \<open>play\<close>. The slot is tested for being empty, whatever state the scene in it is
  in; \<open>renderer.play()\<close> comes last and may throw.
\<close>

definition play :: "env \<Rightarrow> Game \<Rightarrow> error option \<times> Game" where
  "play e g =
     (case (if initialized g then (None, g) else init e g) of
        (Some err, g1) \<Rightarrow> (Some err, g1)
      | (None, g1) \<Rightarrow>
          (case (if scene g1 \<noteq> None then (None, g1) else load_initial_scene e g1) of
             (Some err, g2) \<Rightarrow> (Some err, g2)
           | (None, g2) \<Rightarrow>
               (case renderer g2 of
                  None \<Rightarrow> (Some TypeError, g2)
                | Some r \<Rightarrow> (renderer_play e r, g2\<lparr>trace := trace g2 @ [RendererPlay]\<rparr>))))"


section \<open>Notions used in the statements\<close>

text \<open>Whether the asset store can load a path.\<close>

definition load_ok :: "env \<Rightarrow> base \<Rightarrow> string \<Rightarrow> bool" where
  "load_ok e b p = (case store_load e b p of Inr a \<Rightarrow> True | Inl err \<Rightarrow> False)"

text \<open>The game-object types a manifest declares, \<open>data.gameObjectTypes || []\<close>.\<close>

definition declared_types :: "JSONAsset \<Rightarrow> (string \<times> string) list" where
  "declared_types a = (case declaredGameObjectTypes (data a) of Some ts \<Rightarrow> ts | None \<Rightarrow> [])"

text \<open>The declared types as \<open>for ... in\<close> enumerates them.\<close>

definition enumerated_types :: "JSONAsset \<Rightarrow> (string \<times> string) list" where
  "enumerated_types a = for_in (declared_types a)"


text \<open>
  The paths that initialisation is to load, in order: the manifest, then the descriptor
  of each declared game-object type in the order in which \<open>for ... in\<close> enumerates the
  manifest's types.
\<close>

definition load_sequence :: "env \<Rightarrow> base \<Rightarrow> string list" where
  "load_sequence e b =
     ''game.json'' #
       (case store_load e b ''game.json'' of
          Inl err \<Rightarrow> []
        | Inr a \<Rightarrow> map snd (enumerated_types a))"

text \<open>The error of the first path that fails, when paths are loaded one after the other.\<close>

definition first_error :: "env \<Rightarrow> base \<Rightarrow> string list \<Rightarrow> error option" where
  "first_error e b ps =
     (case dropWhile (load_ok e b) ps of
        [] \<Rightarrow> None
      | p # rest \<Rightarrow> (case store_load e b p of Inl err \<Rightarrow> Some err | Inr a \<Rightarrow> None))"

text \<open>
  Of a list of paths loaded one after the other, those that are asked for: every path up
  to and including the first that fails.
\<close>

definition attempted :: "env \<Rightarrow> base \<Rightarrow> string list \<Rightarrow> string list" where
  "attempted e b ps = takeWhile (load_ok e b) ps @ take 1 (dropWhile (load_ok e b) ps)"

text \<open>
  The registry after the descriptors of the given types have been assigned, in order:
  its own properties, and the object that has replaced its prototype.
\<close>

definition registered :: "env \<Rightarrow> base \<Rightarrow> (string \<times> string) list \<Rightarrow>
    (string \<rightharpoonup> JSONAsset) \<Rightarrow> (string \<rightharpoonup> JSONAsset)" where
  "registered e b types m =
     fold (\<lambda>(t, p) m. if t = ''__proto__'' then m
                       else case store_load e b p of Inr a \<Rightarrow> m(t \<mapsto> a) | Inl err \<Rightarrow> m)
       types m"

definition registered_proto :: "env \<Rightarrow> base \<Rightarrow> (string \<times> string) list \<Rightarrow>
    JSONAsset option \<Rightarrow> JSONAsset option" where
  "registered_proto e b types pr =
     fold (\<lambda>(t, p) pr. if t = ''__proto__''
                        then (case store_load e b p of Inr a \<Rightarrow> Some a | Inl err \<Rightarrow> pr)
                        else pr)
       types pr"


text \<open>
  The part of \<open>loadScene\<close> that follows initialisation: the current scene is
  unloaded, the name is resolved, the new scene is built, loaded and notified.
\<close>

definition switch_scene :: "env \<Rightarrow> string \<Rightarrow> Game \<Rightarrow> error option \<times> Game" where
  "switch_scene e name g2 =
     (let g3 = unload_current g2 in
      (case gameJSONAsset g3 of
         None \<Rightarrow> (Some TypeError, g3)
       | Some a \<Rightarrow>
           (case scenes (data a) of
              None \<Rightarrow> (Some TypeError, g3)
            | Some sc \<Rightarrow>
                let sceneJSONassetPath = js_get (map_of sc) name in
                if \<not> truthy sceneJSONassetPath then (Some (UnknownScene name), g3)
                else
                  let s = new_Scene sceneJSONassetPath;
                      g4 = g3\<lparr>scene := Some s,
                              trace := trace g3 @ [SceneLoadStarted sceneJSONassetPath]\<rparr>
                  in (case Scene_load e s of
                        Inl err \<Rightarrow> (Some err, g4)
                      | Inr s' \<Rightarrow>
                          (None,
                           g4\<lparr>scene := Some s', loadingScene := False,
                              trace := trace g4
                                @ SceneLoadFinished sceneJSONassetPath
                                # afterLoaded_hooks s'\<rparr>)))))"

text \<open>The pre-unload hooks called for the scene in the slot, in order.\<close>

definition unload_hooks :: "Scene option \<Rightarrow> event list" where
  "unload_hooks slot =
     (case slot of
        None \<Rightarrow> []
      | Some s \<Rightarrow> SceneBeforeUnloaded (jsonAssetPath s)
                    # map (\<lambda>obj. ObjectBeforeUnloaded (obj_name obj)) (forEachGameObject s))"

section \<open>A concrete game\<close>

definition empty_json :: GameJSON where
  "empty_json = \<lparr>initialScene = None, scenes = None, declaredGameObjectTypes = None\<rparr>"

definition example_manifest :: GameJSON where
  "example_manifest =
     \<lparr>initialScene = None,
      scenes = Some [(''main'', ''main.json''), (''broken'', ''broken.json'')],
      declaredGameObjectTypes = Some [(''Box'', ''box.json''), (''Ball'', ''ball.json'')]\<rparr>"

text \<open>A manifest whose scenes and types have names that are array indices.\<close>

definition indexed_manifest :: GameJSON where
  "indexed_manifest =
     \<lparr>initialScene = None,
      scenes = Some [(''menu'', ''menu.json''), (''1'', ''one.json'')],
      declaredGameObjectTypes =
        Some [(''b'', ''b.json''), (''2'', ''two.json''), (''a'', ''a.json''), (''1'', ''one.json'')]\<rparr>"

text \<open>
  A world with the given manifest in which the listed paths cannot be loaded. The scene
  file \<open>main.json\<close> holds a box with a lid, and a ball; \<open>broken.json\<close> does not load;
  every other scene file is an empty scene. The renderer plays and pauses without error.
\<close>

definition example_env_of :: "GameJSON \<Rightarrow> string list \<Rightarrow> env" where
  "example_env_of m missing =
     \<lparr>store_load = (\<lambda>b p. if p \<in> set missing then Inl (AssetNotFound p)
                           else if p = ''game.json'' then Inr \<lparr>path = p, data = m\<rparr>
                           else Inr \<lparr>path = p, data = empty_json\<rparr>),
      new_Renderer = (\<lambda>opts. Inr (Renderer opts)),
      new_InputManager = (\<lambda>r opts. Inr (InputManager opts)),
      build_scene = (\<lambda>p. if p = Own ''main.json''
                         then Inr [GameObject ''Box'' [GameObject ''Lid'' []], GameObject ''Ball'' []]
                         else if p = Own ''broken.json'' then Inl (SceneLoadError ''broken.json'')
                         else case p of Own s \<Rightarrow> Inr [] | _ \<Rightarrow> Inl (SceneLoadError ''no path'')),
      renderer_play = (\<lambda>r. None),
      renderer_pause = (\<lambda>r. None)\<rparr>"

definition example_env :: env where
  "example_env = example_env_of example_manifest []"

text \<open>The session \<open>new Game('assets/')\<close>.\<close>

definition example_game :: Game where
  "example_game =
     \<lparr>gameOptions = \<lparr>rendererOptions = None, inputOptions = None\<rparr>, initialized = False,
      baseURL = Some ''assets'', dirHandle = None,
      gameJSONAsset = None, renderer = None, scene = None,
      assetStore = None, inputManager = None,
      gameObjectTypes = Map.empty, gameObjectTypes_proto = None,
      gameObjectClasses = Map.empty, gameObjectClasses_proto = None,
      loadingScene = False, trace = [], discarded = []\<rparr>"

text \<open>The same session after \<open>loadScene('main')\<close> has succeeded.\<close>

definition example_game_main :: Game where
  "example_game_main = snd (loadScene example_env (JString ''main'') example_game)"

text \<open>The same session after \<open>loadScene('broken')\<close> has failed while loading the scene.\<close>

definition example_game_broken :: Game where
  "example_game_broken = snd (loadScene example_env (JString ''broken'') example_game)"


section \<open>The loop over the declared types and the outcomes of \<open>init\<close>\<close>

lemma assetStore_load_eq:
  "assetStore g = Some (AssetStore b) \<Longrightarrow>
   assetStore_load e p g = (store_load e b p, g\<lparr>trace := trace g @ [AssetStoreLoad p]\<rparr>)"
  by (simp add: assetStore_load_def)

lemma load_types_closed:
  "assetStore g = Some (AssetStore b) \<Longrightarrow>
   load_types e ts g =
     (first_error e b (map snd ts),
      g\<lparr>gameObjectTypes :=
          registered e b (takeWhile (\<lambda>tp. load_ok e b (snd tp)) ts) (gameObjectTypes g),
        gameObjectTypes_proto :=
          registered_proto e b (takeWhile (\<lambda>tp. load_ok e b (snd tp)) ts) (gameObjectTypes_proto g),
        trace := trace g @ map AssetStoreLoad (attempted e b (map snd ts))\<rparr>)"
proof (induction ts arbitrary: g)
  case Nil
  then show ?case by (simp add: first_error_def registered_def registered_proto_def attempted_def)
next
  case (Cons tp ts)
  obtain t p where tp: "tp = (t, p)" by (cases tp)
  show ?case
  proof (cases "store_load e b p")
    case (Inl err)
    then have "\<not> load_ok e b p" by (simp add: load_ok_def)
    with Inl Cons.prems tp show ?thesis
      by (simp add: assetStore_load_eq first_error_def registered_def registered_proto_def
          attempted_def)
  next
    case (Inr a)
    then have ok: "load_ok e b p" by (simp add: load_ok_def)
    define g1 where "g1 = g\<lparr>trace := trace g @ [AssetStoreLoad p]\<rparr>"
    define g' where
      "g' = (if t = ''__proto__'' then g1\<lparr>gameObjectTypes_proto := Some a\<rparr>
             else g1\<lparr>gameObjectTypes := (gameObjectTypes g1)(t \<mapsto> a)\<rparr>)"
    have step: "load_types e (tp # ts) g = load_types e ts g'"
      using Cons.prems Inr by (simp add: tp assetStore_load_eq g'_def g1_def)
    have fields: "assetStore g' = Some (AssetStore b)"
      "gameObjectTypes g' = (if t = ''__proto__'' then gameObjectTypes g
                             else (gameObjectTypes g)(t \<mapsto> a))"
      "gameObjectTypes_proto g' = (if t = ''__proto__'' then Some a else gameObjectTypes_proto g)"
      "trace g' = trace g @ [AssetStoreLoad p]"
      using Cons.prems by (simp_all add: g'_def g1_def)
    have r1: "first_error e b (map snd (tp # ts)) = first_error e b (map snd ts)"
      using ok by (simp add: first_error_def tp)
    have r2: "registered e b (takeWhile (\<lambda>tp. load_ok e b (snd tp)) (tp # ts)) (gameObjectTypes g)
              = registered e b (takeWhile (\<lambda>tp. load_ok e b (snd tp)) ts) (gameObjectTypes g')"
      using ok Inr by (simp add: registered_def tp fields)
    have r2': "registered_proto e b (takeWhile (\<lambda>tp. load_ok e b (snd tp)) (tp # ts))
                 (gameObjectTypes_proto g)
              = registered_proto e b (takeWhile (\<lambda>tp. load_ok e b (snd tp)) ts)
                 (gameObjectTypes_proto g')"
      using ok Inr by (simp add: registered_proto_def tp fields)
    have r3: "attempted e b (map snd (tp # ts)) = p # attempted e b (map snd ts)"
      using ok by (simp add: attempted_def tp)
    have upd: "\<And>m pr tr. g'\<lparr>gameObjectTypes := m, gameObjectTypes_proto := pr,
                   trace := trace g' @ tr\<rparr>
                 = g\<lparr>gameObjectTypes := m, gameObjectTypes_proto := pr,
                     trace := trace g @ AssetStoreLoad p # tr\<rparr>"
      by (simp add: g'_def g1_def)
    show ?thesis
      unfolding step Cons.IH [OF fields(1)] r1 r2 r2' r3 upd by simp
  qed
qed

lemma first_error_None_iff: "first_error e b ps = None \<longleftrightarrow> list_all (load_ok e b) ps"
proof (induction ps)
  case Nil
  show ?case by (simp add: first_error_def)
next
  case (Cons p ps)
  show ?case
  proof (cases "load_ok e b p")
    case True
    with Cons show ?thesis by (simp add: first_error_def)
  next
    case False
    then show ?thesis by (simp add: first_error_def load_ok_def split: sum.splits)
  qed
qed

lemma attempted_all_ok: "list_all (load_ok e b) ps \<Longrightarrow> attempted e b ps = ps"
  by (simp add: attempted_def list_all_iff takeWhile_eq_all_conv [THEN iffD2]
      dropWhile_eq_Nil_conv [THEN iffD2])

lemma takeWhile_all_ok:
  "list_all (load_ok e b) (map snd ts) \<Longrightarrow> takeWhile (\<lambda>tp. load_ok e b (snd tp)) ts = ts"
  by (simp add: list_all_iff)

text \<open>The five ways in which \<open>init\<close> ends on a session that is not initialised.\<close>

lemma init_cases [consumes 1, case_names manifest_fails type_fails renderer_fails input_fails ok]:
  assumes "\<not> initialized g"
  obtains
    err where "store_load e (store_base g) ''game.json'' = Inl err"
      and "init e g = (Some err,
             g\<lparr>assetStore := Some (AssetStore (store_base g)),
               trace := trace g @ [AssetStoreLoad ''game.json'']\<rparr>)"
  | a err where "store_load e (store_base g) ''game.json'' = Inr a"
      and "first_error e (store_base g) (map snd (enumerated_types a)) = Some err"
      and "init e g = (Some err,
             g\<lparr>assetStore := Some (AssetStore (store_base g)),
               gameJSONAsset := Some a,
               gameObjectTypes := registered e (store_base g)
                 (takeWhile (\<lambda>tp. load_ok e (store_base g) (snd tp)) (enumerated_types a))
                 (gameObjectTypes g),
               gameObjectTypes_proto := registered_proto e (store_base g)
                 (takeWhile (\<lambda>tp. load_ok e (store_base g) (snd tp)) (enumerated_types a))
                 (gameObjectTypes_proto g),
               trace := trace g @ map AssetStoreLoad
                 (attempted e (store_base g) (load_sequence e (store_base g)))\<rparr>)"
  | a err where "store_load e (store_base g) ''game.json'' = Inr a"
      and "list_all (load_ok e (store_base g)) (map snd (enumerated_types a))"
      and "new_Renderer e (rendererOptions (gameOptions g)) = Inl err"
      and "init e g = (Some err,
             g\<lparr>assetStore := Some (AssetStore (store_base g)),
               gameJSONAsset := Some a,
               gameObjectTypes := registered e (store_base g) (enumerated_types a) (gameObjectTypes g),
               gameObjectTypes_proto :=
                 registered_proto e (store_base g) (enumerated_types a) (gameObjectTypes_proto g),
               trace := trace g @ map AssetStoreLoad (load_sequence e (store_base g))
                 @ [NewRenderer]\<rparr>)"
  | a r err where "store_load e (store_base g) ''game.json'' = Inr a"
      and "list_all (load_ok e (store_base g)) (map snd (enumerated_types a))"
      and "new_Renderer e (rendererOptions (gameOptions g)) = Inr r"
      and "new_InputManager e r (inputOptions (gameOptions g)) = Inl err"
      and "init e g = (Some err,
             g\<lparr>assetStore := Some (AssetStore (store_base g)),
               gameJSONAsset := Some a,
               gameObjectTypes := registered e (store_base g) (enumerated_types a) (gameObjectTypes g),
               gameObjectTypes_proto :=
                 registered_proto e (store_base g) (enumerated_types a) (gameObjectTypes_proto g),
               renderer := Some r,
               trace := trace g @ map AssetStoreLoad (load_sequence e (store_base g))
                 @ [NewRenderer, NewInputManager]\<rparr>)"
  | a r im where "store_load e (store_base g) ''game.json'' = Inr a"
      and "list_all (load_ok e (store_base g)) (map snd (enumerated_types a))"
      and "new_Renderer e (rendererOptions (gameOptions g)) = Inr r"
      and "new_InputManager e r (inputOptions (gameOptions g)) = Inr im"
      and "init e g = (None,
             g\<lparr>assetStore := Some (AssetStore (store_base g)),
               gameJSONAsset := Some a,
               gameObjectTypes := registered e (store_base g) (enumerated_types a) (gameObjectTypes g),
               gameObjectTypes_proto :=
                 registered_proto e (store_base g) (enumerated_types a) (gameObjectTypes_proto g),
               renderer := Some r, inputManager := Some im, initialized := True,
               trace := trace g @ map AssetStoreLoad (load_sequence e (store_base g))
                 @ [NewRenderer, NewInputManager]\<rparr>)"
proof -
  define b where "b = store_base g"
  have al: "\<And>p. assetStore_load e p (g\<lparr>assetStore := Some (AssetStore b)\<rparr>)
    = (store_load e b p, g\<lparr>assetStore := Some (AssetStore b),
         trace := trace g @ [AssetStoreLoad p]\<rparr>)"
    by (simp add: assetStore_load_def)
  show thesis
  proof (cases "store_load e b ''game.json''")
    case (Inl err)
    have "init e g = (Some err, g\<lparr>assetStore := Some (AssetStore b),
               trace := trace g @ [AssetStoreLoad ''game.json'']\<rparr>)"
      using assms Inl by (simp add: init_def al b_def [symmetric])
    with Inl show thesis using that(1) by (simp add: b_def)
  next
    case (Inr a)
    define g3 where "g3 = g\<lparr>assetStore := Some (AssetStore b),
       trace := trace g @ [AssetStoreLoad ''game.json''], gameJSONAsset := Some a\<rparr>"
    have st3: "assetStore g3 = Some (AssetStore b)" by (simp add: g3_def)
    have seq: "load_sequence e b = ''game.json'' # map snd (enumerated_types a)"
      using Inr by (simp add: load_sequence_def)
    have ok0: "load_ok e b ''game.json''" using Inr by (simp add: load_ok_def)
    have i1: "init e g =
       (case load_types e (enumerated_types a) g3 of
          (Some err, g4) \<Rightarrow> (Some err, g4)
        | (None, g4) \<Rightarrow>
            let g5 = g4\<lparr>trace := trace g4 @ [NewRenderer]\<rparr> in
            (case new_Renderer e (rendererOptions (gameOptions g5)) of
               Inl err \<Rightarrow> (Some err, g5)
             | Inr r \<Rightarrow>
                 let g6 = g5\<lparr>renderer := Some r, trace := trace g5 @ [NewInputManager]\<rparr> in
                 (case new_InputManager e r (inputOptions (gameOptions g6)) of
                    Inl err \<Rightarrow> (Some err, g6)
                  | Inr im \<Rightarrow> (None, g6\<lparr>inputManager := Some im, initialized := True\<rparr>))))"
      using assms Inr
      by (simp add: init_def al g3_def b_def [symmetric] declared_types_def enumerated_types_def)
    note lt = load_types_closed [OF st3, of e "enumerated_types a"]
    show thesis
    proof (cases "first_error e b (map snd (enumerated_types a))")
      case (Some err)
      have att: "attempted e b (load_sequence e b)
                 = ''game.json'' # attempted e b (map snd (enumerated_types a))"
        using ok0 by (simp add: seq attempted_def)
      have "init e g = (Some err,
             g\<lparr>assetStore := Some (AssetStore b),
               gameJSONAsset := Some a,
               gameObjectTypes := registered e b
                 (takeWhile (\<lambda>tp. load_ok e b (snd tp)) (enumerated_types a))
                 (gameObjectTypes g),
               gameObjectTypes_proto := registered_proto e b
                 (takeWhile (\<lambda>tp. load_ok e b (snd tp)) (enumerated_types a))
                 (gameObjectTypes_proto g),
               trace := trace g @ map AssetStoreLoad (attempted e b (load_sequence e b))\<rparr>)"
        unfolding i1 lt Some att by (simp add: g3_def)
      with Inr Some show thesis using that(2) by (simp add: b_def)
    next
      case None
      then have all: "list_all (load_ok e b) (map snd (enumerated_types a))"
        by (simp add: first_error_None_iff)
      define g4 where "g4 = g\<lparr>assetStore := Some (AssetStore b), gameJSONAsset := Some a,
         gameObjectTypes := registered e b (enumerated_types a) (gameObjectTypes g),
         gameObjectTypes_proto := registered_proto e b (enumerated_types a) (gameObjectTypes_proto g),
         trace := trace g @ map AssetStoreLoad (load_sequence e b)\<rparr>"
      have lt': "load_types e (enumerated_types a) g3 = (None, g4)"
        unfolding lt None attempted_all_ok [OF all] takeWhile_all_ok [OF all]
        by (simp add: g3_def g4_def seq)
      show thesis
      proof (cases "new_Renderer e (rendererOptions (gameOptions g))")
        case (Inl err)
        have "init e g = (Some err, g4\<lparr>trace := trace g4 @ [NewRenderer]\<rparr>)"
          unfolding i1 lt' using Inl by (simp add: g4_def)
        with Inr all Inl show thesis using that(3) by (simp add: b_def g4_def)
      next
        case r: (Inr r)
        show thesis
        proof (cases "new_InputManager e r (inputOptions (gameOptions g))")
          case (Inl err)
          have "init e g = (Some err, g4\<lparr>renderer := Some r,
                  trace := trace g4 @ [NewRenderer, NewInputManager]\<rparr>)"
            unfolding i1 lt' using r Inl by (simp add: g4_def)
          with Inr all r Inl show thesis using that(4) by (simp add: b_def g4_def)
        next
          case im: (Inr im)
          have "init e g = (None, g4\<lparr>renderer := Some r, inputManager := Some im,
                  initialized := True,
                  trace := trace g4 @ [NewRenderer, NewInputManager]\<rparr>)"
            unfolding i1 lt' using r im by (simp add: g4_def)
          with Inr all r im show thesis using that(5) by (simp add: b_def g4_def)
        qed
      qed
    qed
  qed
qed

section \<open>The outcomes of \<open>loadScene\<close>\<close>

lemmas example_defs = example_game_def example_env_def example_env_of_def example_manifest_def
  empty_json_def

lemmas enum_defs = for_in_def own_properties_def is_array_index_def is_digit_def decimal_def
  digit_value_def

lemma loadScene_unfold:
  "loadScene e sceneName g =
     (if loadingScene g then (Some ConcurrentLoadError, g)
      else (case sceneName of
              JNonString \<Rightarrow> (Some SceneNameNotString, g\<lparr>loadingScene := True\<rparr>)
            | JString name \<Rightarrow>
                (case (if initialized g then (None, g\<lparr>loadingScene := True\<rparr>)
                       else init e (g\<lparr>loadingScene := True\<rparr>)) of
                   (Some err, g2) \<Rightarrow> (Some err, g2)
                 | (None, g2) \<Rightarrow> switch_scene e name g2)))"
  unfolding loadScene_def switch_scene_def Let_def
  by (simp split: scene_arg.splits)

lemma unload_current_fields:
  "scene (unload_current g) = None"
  "trace (unload_current g) = trace g @ unload_hooks (scene g)"
  "loadingScene (unload_current g) = loadingScene g"
  "initialized (unload_current g) = initialized g"
  "renderer (unload_current g) = renderer g"
  "gameJSONAsset (unload_current g) = gameJSONAsset g"
  "assetStore (unload_current g) = assetStore g"
  by (simp_all add: unload_current_def unload_hooks_def split: option.splits)

text \<open>The three ways in which the switch to a declared manifest ends.\<close>

lemma switch_scene_cases [consumes 2, case_names unknown load_fails ok]:
  assumes "gameJSONAsset g = Some a" and "scenes (data a) = Some sc"
  obtains
    "\<not> truthy (js_get (map_of sc) name)"
    and "switch_scene e name g = (Some (UnknownScene name), unload_current g)"
  | err where "truthy (js_get (map_of sc) name)"
    and "build_scene e (js_get (map_of sc) name) = Inl err"
    and "switch_scene e name g =
           (Some err, (unload_current g)\<lparr>scene := Some (new_Scene (js_get (map_of sc) name)),
              trace := trace g @ unload_hooks (scene g)
                @ [SceneLoadStarted (js_get (map_of sc) name)]\<rparr>)"
  | objs s' where "truthy (js_get (map_of sc) name)"
    and "build_scene e (js_get (map_of sc) name) = Inr objs"
    and "s' = \<lparr>jsonAssetPath = js_get (map_of sc) name, game = Some ThisGame, active = True,
               loaded = True, gameObjects = objs\<rparr>"
    and "switch_scene e name g =
           (None, (unload_current g)\<lparr>scene := Some s', loadingScene := False,
              trace := trace g @ unload_hooks (scene g)
                @ [SceneLoadStarted (js_get (map_of sc) name),
                   SceneLoadFinished (js_get (map_of sc) name)]
                @ afterLoaded_hooks s'\<rparr>)"
proof -
  define p where "p = js_get (map_of sc) name"
  have gj: "gameJSONAsset (unload_current g) = Some a"
    using assms(1) by (simp add: unload_current_fields)
  show thesis
  proof (cases "truthy p")
    case False
    then have "switch_scene e name g = (Some (UnknownScene name), unload_current g)"
      using gj assms(2) by (simp add: switch_scene_def p_def Let_def)
    with False show thesis using that(1) by (simp add: p_def)
  next
    case True
    show thesis
    proof (cases "build_scene e p")
      case (Inl err)
      have "switch_scene e name g =
           (Some err, (unload_current g)\<lparr>scene := Some (new_Scene p),
              trace := trace g @ unload_hooks (scene g) @ [SceneLoadStarted p]\<rparr>)"
        using gj assms(2) True Inl
        by (simp add: switch_scene_def p_def [symmetric] Let_def Scene_load_def new_Scene_def
            unload_current_fields)
      with True Inl show thesis using that(2) by (simp add: p_def)
    next
      case (Inr objs)
      define s' where "s' = \<lparr>jsonAssetPath = p, game = Some ThisGame, active = True,
               loaded = True, gameObjects = objs\<rparr>"
      have "switch_scene e name g =
           (None, (unload_current g)\<lparr>scene := Some s', loadingScene := False,
              trace := trace g @ unload_hooks (scene g)
                @ [SceneLoadStarted p, SceneLoadFinished p] @ afterLoaded_hooks s'\<rparr>)"
        using gj assms(2) True Inr
        by (simp add: switch_scene_def p_def [symmetric] Let_def Scene_load_def new_Scene_def
            unload_current_fields s'_def)
      with True Inr show thesis using that(3) [of objs s'] by (simp add: p_def s'_def)
    qed
  qed
qed

text \<open>What \<open>init\<close> leaves alone, and what it establishes.\<close>

lemma init_frame:
  "loadingScene (snd (init e g)) = loadingScene g"
  "scene (snd (init e g)) = scene g"
  "discarded (snd (init e g)) = discarded g"
  "gameObjectClasses (snd (init e g)) = gameObjectClasses g"
proof -
  show "loadingScene (snd (init e g)) = loadingScene g"
  proof (cases "initialized g")
    case True then show ?thesis by (simp add: init_def)
  next
    case False then show ?thesis by (cases rule: init_cases [of g e]) simp_all
  qed
  show "scene (snd (init e g)) = scene g"
  proof (cases "initialized g")
    case True then show ?thesis by (simp add: init_def)
  next
    case False then show ?thesis by (cases rule: init_cases [of g e]) simp_all
  qed
  show "discarded (snd (init e g)) = discarded g"
  proof (cases "initialized g")
    case True then show ?thesis by (simp add: init_def)
  next
    case False then show ?thesis by (cases rule: init_cases [of g e]) simp_all
  qed
  show "gameObjectClasses (snd (init e g)) = gameObjectClasses g"
  proof (cases "initialized g")
    case True then show ?thesis by (simp add: init_def)
  next
    case False then show ?thesis by (cases rule: init_cases [of g e]) simp_all
  qed
qed

lemma init_failure_uninitialized:
  "\<not> initialized g \<Longrightarrow> fst (init e g) \<noteq> None \<Longrightarrow> \<not> initialized (snd (init e g))"
  by (cases rule: init_cases [of g e]) simp_all


lemma init_trace_grows: "\<exists>evs. trace (snd (init e g)) = trace g @ evs"
proof (cases "initialized g")
  case True then show ?thesis by (simp add: init_def)
next
  case False then show ?thesis by (cases rule: init_cases [of g e]) simp_all
qed

section \<open>The single-flight guard\<close>

text \<open>
  Claim C5. A call of \<open>loadScene\<close> made while the flag \<open>loadingScene\<close> is set fails
  with \<open>ConcurrentLoadError\<close> at once: the session is returned as it was, so no asset
  has been requested, no hook called and no field written.
\<close>

theorem loadScene_rejects_concurrent_call:
  "loadingScene g \<Longrightarrow> loadScene e sceneName g = (Some ConcurrentLoadError, g)"
  by (simp add: loadScene_def)

theorem loadScene_rejects_concurrent_call_witness:
  "loadingScene (example_game\<lparr>loadingScene := True\<rparr>) \<and>
   loadScene example_env (JString ''main'') (example_game\<lparr>loadingScene := True\<rparr>)
     = (Some ConcurrentLoadError, example_game\<lparr>loadingScene := True\<rparr>)"
proof -
  have h: "loadingScene (example_game\<lparr>loadingScene := True\<rparr>)" by simp
  show ?thesis
    using h loadScene_rejects_concurrent_call [OF h, of example_env "JString ''main''"] by simp
qed

text \<open>
  Claim C1. The claim asks that the flag be clear after every call that throws. On the
  example session, \<open>loadScene('missing')\<close> fails with \<open>UnknownScene\<close> and leaves the flag
  set; \<open>loadScene('main')\<close>, which succeeds on the fresh session, is then rejected by
  the guard.
\<close>

theorem loadScene_guard_stuck_after_failure:
  "fst (loadScene example_env (JString ''main'') example_game) = None \<and>
   fst (loadScene example_env (JString ''missing'') example_game) = Some (UnknownScene ''missing'') \<and>
   loadingScene (snd (loadScene example_env (JString ''missing'') example_game)) \<and>
   fst (loadScene example_env (JString ''main'')
          (snd (loadScene example_env (JString ''missing'') example_game)))
     = Some ConcurrentLoadError"
  by (simp add: loadScene_def init_def assetStore_load_def
        store_base_def unload_current_def js_get_def new_Scene_def Scene_load_def
        example_defs enum_defs Let_def object_prototype_keys_def)

section \<open>The constructor\<close>

lemma strip_slash_snoc: "strip_slash (s @ ''/'') = s"
  by (simp add: strip_slash_def)

lemma strip_slash_other: "s = [] \<or> last s \<noteq> CHR ''/'' \<Longrightarrow> strip_slash s = s"
  by (auto simp add: strip_slash_def)

text \<open>
  Claim C8. The constructor fails on an argument that is neither a string nor a
  directory handle. Given a string it stores it as the base URL, without its last
  character when that is a slash, and leaves the directory handle null; given a
  directory handle it stores it and leaves the base URL null. So exactly one of the two
  is null in every session the constructor returns.
\<close>

theorem constructor_Game_base_location:
  "constructor_Game ArgOther opts = Inl InvalidConstructorArgument \<and>
   (\<exists>g. constructor_Game (ArgString (s @ ''/'')) opts = Inr g \<and>
        baseURL g = Some s \<and> dirHandle g = None) \<and>
   (s = [] \<or> last s \<noteq> CHR ''/'' \<longrightarrow>
      (\<exists>g. constructor_Game (ArgString s) opts = Inr g \<and>
           baseURL g = Some s \<and> dirHandle g = None)) \<and>
   (\<exists>g. constructor_Game (ArgDirHandle h) opts = Inr g \<and>
        baseURL g = None \<and> dirHandle g = Some h) \<and>
   (\<forall>g. constructor_Game a opts = Inr g \<longrightarrow> (baseURL g = None) \<noteq> (dirHandle g = None))"
proof (intro conjI)
  show "constructor_Game ArgOther opts = Inl InvalidConstructorArgument"
    by (simp add: constructor_Game_def)
  show "\<exists>g. constructor_Game (ArgString (s @ ''/'')) opts = Inr g \<and>
        baseURL g = Some s \<and> dirHandle g = None"
    by (simp add: constructor_Game_def strip_slash_snoc)
  show "s = [] \<or> last s \<noteq> CHR ''/'' \<longrightarrow>
      (\<exists>g. constructor_Game (ArgString s) opts = Inr g \<and>
           baseURL g = Some s \<and> dirHandle g = None)"
    by (auto simp add: constructor_Game_def strip_slash_other)
  show "\<exists>g. constructor_Game (ArgDirHandle h) opts = Inr g \<and>
        baseURL g = None \<and> dirHandle g = Some h"
    by (simp add: constructor_Game_def)
  show "\<forall>g. constructor_Game a opts = Inr g \<longrightarrow> (baseURL g = None) \<noteq> (dirHandle g = None)"
    by (cases a) (auto simp add: constructor_Game_def)
qed

theorem constructor_Game_base_location_witness:
  "constructor_Game (ArgString ''assets/'') None = Inr example_game \<and>
   baseURL example_game = Some ''assets'' \<and> dirHandle example_game = None \<and>
   (baseURL example_game = None) \<noteq> (dirHandle example_game = None)"
proof -
  have c: "constructor_Game (ArgString ''assets/'') None = Inr example_game"
    by (simp add: constructor_Game_def strip_slash_def example_game_def)
  from constructor_Game_base_location [of None "''assets''" "DirectoryHandle ''d''"
      "ArgString ''assets/''"]
  have "(baseURL example_game = None) \<noteq> (dirHandle example_game = None)"
    using c by simp
  with c show ?thesis by (simp add: example_game_def)
qed

section \<open>The registries\<close>

text \<open>
  A lookup in an object whose prototype is \<open>Object.prototype\<close>, such as the scenes of a
  manifest, never yields \<open>Member\<close>; so the path of a scene is never one.
\<close>

lemma js_get_not_Member: "js_get props key \<noteq> Member p k"
  by (simp add: js_get_def split: option.splits)

text \<open>
  While the prototype of a registry has not been replaced, a name that is neither
  registered nor a member of \<open>Object.prototype\<close> is not found.
\<close>

lemma getGameObjectClass_unregistered:
  "gameObjectClasses g t = None \<Longrightarrow> gameObjectClasses_proto g = None \<Longrightarrow>
   t \<notin> set object_prototype_keys \<Longrightarrow> getGameObjectClass g t = Null"
  by (simp add: getGameObjectClass_def registry_get_def js_get_def)

lemma getGameObjectTypeJSON_undeclared:
  "gameObjectTypes g t = None \<Longrightarrow> gameObjectTypes_proto g = None \<Longrightarrow>
   t \<notin> set object_prototype_keys \<Longrightarrow> getGameObjectTypeJSON g t = Undefined"
  by (simp add: getGameObjectTypeJSON_def registry_get_def js_get_def)

text \<open>
  Claim C9. The claim asks for \<open>null\<close> on every type name that has not been registered.
  On the session the constructor returns, where nothing is registered,
  \<open>getGameObjectClass('toString')\<close> returns the member \<open>toString\<close> that the registry
  object inherits from \<open>Object.prototype\<close>, not \<open>null\<close>.
\<close>

theorem getGameObjectClass_inherited_name:
  "constructor_Game (ArgString ''assets/'') None = Inr example_game \<and>
   gameObjectClasses example_game ''toString'' = None \<and>
   getGameObjectClass example_game ''toString'' = Inherited ''toString'' \<and>
   getGameObjectClass example_game ''toString'' \<noteq> Null"
  by (simp add: constructor_Game_def strip_slash_def example_game_def getGameObjectClass_def
      registry_get_def js_get_def object_prototype_keys_def)

section \<open>The order of enumeration\<close>

lemma own_properties_from_keys:
  "fst ` set (own_properties_from seen xs) = fst ` set xs - set seen"
proof (induction xs arbitrary: seen)
  case Nil
  show ?case by simp
next
  case (Cons kv xs)
  obtain k v where kv: "kv = (k, v)" by (cases kv)
  show ?case using Cons.IH [of seen] Cons.IH [of "k # seen"] by (auto simp add: kv)
qed

lemma own_properties_from_subset: "set (own_properties_from seen xs) \<subseteq> set xs"
proof (induction xs arbitrary: seen)
  case Nil
  show ?case by simp
next
  case (Cons kv xs)
  obtain k v where kv: "kv = (k, v)" by (cases kv)
  show ?case using Cons.IH [of seen] Cons.IH [of "k # seen"] by (auto simp add: kv)
qed

lemma own_properties_from_distinct: "distinct (map fst (own_properties_from seen xs))"
proof (induction xs arbitrary: seen)
  case Nil
  show ?case by simp
next
  case (Cons kv xs)
  obtain k v where kv: "kv = (k, v)" by (cases kv)
  have "k \<notin> fst ` set (own_properties_from (k # seen) xs)"
    by (simp add: own_properties_from_keys)
  with Cons.IH [of seen] Cons.IH [of "k # seen"] show ?case by (simp add: kv)
qed

lemma own_properties_from_id:
  "distinct (map fst xs) \<Longrightarrow> fst ` set xs \<inter> set seen = {} \<Longrightarrow> own_properties_from seen xs = xs"
proof (induction xs arbitrary: seen)
  case Nil
  show ?case by simp
next
  case (Cons kv xs)
  obtain k v where kv: "kv = (k, v)" by (cases kv)
  from Cons.prems kv have "k \<notin> set seen" and "distinct (map fst xs)"
    and "fst ` set xs \<inter> set (k # seen) = {}" by auto
  with Cons.IH [of "k # seen"] show ?case by (simp add: kv)
qed

lemma own_properties_id: "distinct (map fst obj) \<Longrightarrow> own_properties obj = obj"
  by (simp add: own_properties_def own_properties_from_id)

lemma for_in_set: "set (for_in obj) = set (own_properties obj)"
  by (auto simp add: for_in_def)

lemma for_in_subset: "set (for_in obj) \<subseteq> set obj"
  by (simp add: for_in_set own_properties_def own_properties_from_subset)

lemma for_in_distinct: "distinct (map fst (for_in obj))"
proof -
  have d: "distinct (map fst (own_properties obj))"
    by (simp add: own_properties_def own_properties_from_distinct)
  let ?A = "filter (\<lambda>kv. is_array_index (fst kv)) (own_properties obj)"
  let ?B = "filter (\<lambda>kv. \<not> is_array_index (fst kv)) (own_properties obj)"
  have dA: "distinct (map fst ?A)" and dB: "distinct (map fst ?B)"
    using d by (simp_all add: distinct_map_filter)
  have dS: "distinct (map fst (sort_key (\<lambda>kv. decimal (fst kv)) ?A))"
    using dA by (simp add: distinct_map)
  have "fst ` set (sort_key (\<lambda>kv. decimal (fst kv)) ?A) \<inter> fst ` set ?B = {}"
    by auto
  with dS dB show ?thesis by (simp add: for_in_def)
qed

lemma for_in_indices_first:
  "map fst (for_in obj) =
     filter is_array_index (map fst (for_in obj))
       @ filter (\<lambda>k. \<not> is_array_index k) (map fst (for_in obj))"
proof -
  let ?A = "sort_key (\<lambda>kv. decimal (fst kv))
              (filter (\<lambda>kv. is_array_index (fst kv)) (own_properties obj))"
  let ?B = "filter (\<lambda>kv. \<not> is_array_index (fst kv)) (own_properties obj)"
  have a: "filter is_array_index (map fst ?A) = map fst ?A"
    "filter (\<lambda>k. \<not> is_array_index k) (map fst ?A) = []"
    by (auto simp add: filter_empty_conv)
  have b: "filter is_array_index (map fst ?B) = []"
    "filter (\<lambda>k. \<not> is_array_index k) (map fst ?B) = map fst ?B"
    by (auto simp add: filter_empty_conv)
  show ?thesis unfolding for_in_def map_append filter_append a b by simp
qed

lemma for_in_indices_sorted:
  "sorted (map decimal (filter is_array_index (map fst (for_in obj))))"
proof -
  let ?A = "sort_key (\<lambda>kv. decimal (fst kv))
              (filter (\<lambda>kv. is_array_index (fst kv)) (own_properties obj))"
  let ?B = "filter (\<lambda>kv. \<not> is_array_index (fst kv)) (own_properties obj)"
  have a: "filter is_array_index (map fst ?A) = map fst ?A" by auto
  have b: "filter is_array_index (map fst ?B) = []" by (auto simp add: filter_empty_conv)
  have "sorted (map (\<lambda>kv. decimal (fst kv)) ?A)" by (rule sorted_sort_key)
  then have s: "sorted (map decimal (map fst ?A))" by (simp add: comp_def)
  show ?thesis unfolding for_in_def map_append filter_append a b append_Nil2 by (rule s)
qed

lemma for_in_others_in_order:
  assumes "distinct (map fst obj)"
  shows "filter (\<lambda>k. \<not> is_array_index k) (map fst (for_in obj))
         = filter (\<lambda>k. \<not> is_array_index k) (map fst obj)"
proof -
  let ?A = "sort_key (\<lambda>kv. decimal (fst kv)) (filter (\<lambda>kv. is_array_index (fst kv)) obj)"
  have a: "filter (\<lambda>k. \<not> is_array_index k) (map fst ?A) = []"
    by (auto simp add: filter_empty_conv)
  show ?thesis
    unfolding for_in_def own_properties_id [OF assms] map_append filter_append a
    by (simp add: filter_map comp_def)
qed

lemma for_in_declaration_order:
  assumes "distinct (map fst obj)" and "list_all (\<lambda>k. \<not> is_array_index k) (map fst obj)"
  shows "for_in obj = obj"
proof -
  have n: "filter (\<lambda>kv. is_array_index (fst kv)) obj = []"
    using assms(2) by (auto simp add: filter_empty_conv list_all_iff)
  have y: "filter (\<lambda>kv. \<not> is_array_index (fst kv)) obj = obj"
    using assms(2) by (auto simp add: list_all_iff)
  show ?thesis unfolding for_in_def own_properties_id [OF assms(1)] n y by simp
qed

section \<open>Initialisation\<close>

lemma registered_other:
  "t \<notin> fst ` set ts \<Longrightarrow> registered e b ts m t = m t"
proof (induction ts arbitrary: m)
  case Nil
  show ?case by (simp add: registered_def)
next
  case (Cons tp ts)
  obtain t' p' where tp: "tp = (t', p')" by (cases tp)
  from Cons.prems tp have ne: "t \<noteq> t'" and rest: "t \<notin> fst ` set ts" by auto
  have unf: "registered e b (tp # ts) m =
     registered e b ts
       (if t' = ''__proto__'' then m
        else case store_load e b p' of Inr a \<Rightarrow> m(t' \<mapsto> a) | Inl err \<Rightarrow> m)"
    by (simp add: registered_def tp)
  show ?case unfolding unf Cons.IH [OF rest] using ne by (simp split: sum.splits)
qed

lemma registered_lookup:
  "distinct (map fst ts) \<Longrightarrow> (t, p) \<in> set ts \<Longrightarrow> t \<noteq> ''__proto__'' \<Longrightarrow>
   store_load e b p = Inr d \<Longrightarrow> registered e b ts m t = Some d"
proof (induction ts arbitrary: m)
  case Nil
  then show ?case by simp
next
  case (Cons tp ts)
  obtain t' p' where tp: "tp = (t', p')" by (cases tp)
  have unf: "registered e b (tp # ts) m =
     registered e b ts
       (if t' = ''__proto__'' then m
        else case store_load e b p' of Inr a \<Rightarrow> m(t' \<mapsto> a) | Inl err \<Rightarrow> m)"
    by (simp add: registered_def tp)
  show ?case
  proof (cases "(t, p) = (t', p')")
    case True
    with Cons.prems tp have "t \<notin> fst ` set ts" by auto
    from registered_other [OF this] True Cons.prems(3,4) show ?thesis
      unfolding unf by simp
  next
    case False
    with Cons.prems tp have "(t, p) \<in> set ts" and "distinct (map fst ts)" by auto
    from Cons.IH [OF this(2) this(1) Cons.prems(3,4)] show ?thesis unfolding unf .
  qed
qed

lemma first_error_load_sequence:
  "store_load e b ''game.json'' = Inr a \<Longrightarrow>
   first_error e b (load_sequence e b) = first_error e b (map snd (enumerated_types a))"
  by (simp add: load_sequence_def first_error_def load_ok_def)

lemma load_sequence_ok:
  "store_load e b ''game.json'' = Inr a \<Longrightarrow>
   list_all (load_ok e b) (load_sequence e b)
     = list_all (load_ok e b) (map snd (enumerated_types a))"
  by (simp add: load_sequence_def load_ok_def)

lemma load_sequence_fails:
  "store_load e b ''game.json'' = Inl err \<Longrightarrow>
   first_error e b (load_sequence e b) = Some err
   \<and> attempted e b (load_sequence e b) = [''game.json'']
   \<and> \<not> list_all (load_ok e b) (load_sequence e b)"
  by (simp add: load_sequence_def first_error_def load_ok_def attempted_def)

lemma enumerated_types_order:
  "set (enumerated_types a) \<subseteq> set (declared_types a) \<and>
   map fst (enumerated_types a) =
     filter is_array_index (map fst (enumerated_types a))
       @ filter (\<lambda>k. \<not> is_array_index k) (map fst (enumerated_types a)) \<and>
   sorted (map decimal (filter is_array_index (map fst (enumerated_types a)))) \<and>
   (distinct (map fst (declared_types a)) \<longrightarrow>
      set (enumerated_types a) = set (declared_types a) \<and>
      filter (\<lambda>k. \<not> is_array_index k) (map fst (enumerated_types a))
        = filter (\<lambda>k. \<not> is_array_index k) (map fst (declared_types a))) \<and>
   (distinct (map fst (declared_types a)) \<and>
    list_all (\<lambda>k. \<not> is_array_index k) (map fst (declared_types a)) \<longrightarrow>
      enumerated_types a = declared_types a)"
  unfolding enumerated_types_def
  using for_in_subset [of "declared_types a"] for_in_indices_first [of "declared_types a"]
    for_in_indices_sorted [of "declared_types a"] for_in_others_in_order [of "declared_types a"]
    for_in_declaration_order [of "declared_types a"]
    for_in_set [of "declared_types a"] own_properties_id [of "declared_types a"]
  by simp

text \<open>
  Claim C6, as the code has it. On a session that is not initialised, \<open>init\<close> asks the
  asset store for the manifest and then for the descriptor of each declared type, one
  after the other in the order in which \<open>for ... in\<close> enumerates the manifest's types,
  and stops at the first load that fails: the loads it has made are exactly those up to
  and including the first failing one. If a load fails, \<open>init\<close> fails with the error of
  that load; whenever \<open>init\<close> fails, the session is still not initialised. If \<open>init\<close>
  succeeds, the session is initialised, it holds the manifest, and every declared type
  whose name is not \<open>__proto__\<close> is registered under its name with the descriptor loaded
  from its path. The order of enumeration puts the names that are array indices first, in
  ascending numeric order, and the other names after them in the order of declaration;
  it is the order of declaration when no declared name is an array index.
\<close>

theorem init_loads_types_in_enumeration_order:
  assumes "\<not> initialized g"
  shows "(\<exists>evs. trace (snd (init e g)) =
            trace g @ map AssetStoreLoad (attempted e (store_base g) (load_sequence e (store_base g)))
              @ evs \<and> set evs \<subseteq> {NewRenderer, NewInputManager}) \<and>
         (\<not> list_all (load_ok e (store_base g)) (load_sequence e (store_base g)) \<longrightarrow>
            fst (init e g) \<noteq> None \<and>
            fst (init e g) = first_error e (store_base g) (load_sequence e (store_base g))) \<and>
         (fst (init e g) \<noteq> None \<longrightarrow> \<not> initialized (snd (init e g))) \<and>
         (fst (init e g) = None \<longrightarrow>
            initialized (snd (init e g)) \<and>
            (\<exists>a. store_load e (store_base g) ''game.json'' = Inr a \<and>
                 gameJSONAsset (snd (init e g)) = Some a \<and>
                 (\<forall>t p d. (t, p) \<in> set (enumerated_types a) \<and> t \<noteq> ''__proto__'' \<and>
                     store_load e (store_base g) p = Inr d \<longrightarrow>
                     gameObjectTypes (snd (init e g)) t = Some d))) \<and>
         (\<forall>a. store_load e (store_base g) ''game.json'' = Inr a \<longrightarrow>
            load_sequence e (store_base g) = ''game.json'' # map snd (enumerated_types a) \<and>
            set (enumerated_types a) \<subseteq> set (declared_types a) \<and>
            map fst (enumerated_types a) =
              filter is_array_index (map fst (enumerated_types a))
                @ filter (\<lambda>k. \<not> is_array_index k) (map fst (enumerated_types a)) \<and>
            sorted (map decimal (filter is_array_index (map fst (enumerated_types a)))) \<and>
            (distinct (map fst (declared_types a)) \<longrightarrow>
               set (enumerated_types a) = set (declared_types a) \<and>
               filter (\<lambda>k. \<not> is_array_index k) (map fst (enumerated_types a))
                 = filter (\<lambda>k. \<not> is_array_index k) (map fst (declared_types a))) \<and>
            (distinct (map fst (declared_types a)) \<and>
             list_all (\<lambda>k. \<not> is_array_index k) (map fst (declared_types a)) \<longrightarrow>
               enumerated_types a = declared_types a))"
proof -
  have order: "\<forall>a. store_load e (store_base g) ''game.json'' = Inr a \<longrightarrow>
            load_sequence e (store_base g) = ''game.json'' # map snd (enumerated_types a) \<and>
            set (enumerated_types a) \<subseteq> set (declared_types a) \<and>
            map fst (enumerated_types a) =
              filter is_array_index (map fst (enumerated_types a))
                @ filter (\<lambda>k. \<not> is_array_index k) (map fst (enumerated_types a)) \<and>
            sorted (map decimal (filter is_array_index (map fst (enumerated_types a)))) \<and>
            (distinct (map fst (declared_types a)) \<longrightarrow>
               set (enumerated_types a) = set (declared_types a) \<and>
               filter (\<lambda>k. \<not> is_array_index k) (map fst (enumerated_types a))
                 = filter (\<lambda>k. \<not> is_array_index k) (map fst (declared_types a))) \<and>
            (distinct (map fst (declared_types a)) \<and>
             list_all (\<lambda>k. \<not> is_array_index k) (map fst (declared_types a)) \<longrightarrow>
               enumerated_types a = declared_types a)"
  proof (intro allI impI)
    fix a assume "store_load e (store_base g) ''game.json'' = Inr a"
    then have "load_sequence e (store_base g) = ''game.json'' # map snd (enumerated_types a)"
      by (simp add: load_sequence_def)
    with enumerated_types_order [of a]
    show "load_sequence e (store_base g) = ''game.json'' # map snd (enumerated_types a) \<and>
            set (enumerated_types a) \<subseteq> set (declared_types a) \<and>
            map fst (enumerated_types a) =
              filter is_array_index (map fst (enumerated_types a))
                @ filter (\<lambda>k. \<not> is_array_index k) (map fst (enumerated_types a)) \<and>
            sorted (map decimal (filter is_array_index (map fst (enumerated_types a)))) \<and>
            (distinct (map fst (declared_types a)) \<longrightarrow>
               set (enumerated_types a) = set (declared_types a) \<and>
               filter (\<lambda>k. \<not> is_array_index k) (map fst (enumerated_types a))
                 = filter (\<lambda>k. \<not> is_array_index k) (map fst (declared_types a))) \<and>
            (distinct (map fst (declared_types a)) \<and>
             list_all (\<lambda>k. \<not> is_array_index k) (map fst (declared_types a)) \<longrightarrow>
               enumerated_types a = declared_types a)"
      by blast
  qed
  have main: "(\<exists>evs. trace (snd (init e g)) =
            trace g @ map AssetStoreLoad (attempted e (store_base g) (load_sequence e (store_base g)))
              @ evs \<and> set evs \<subseteq> {NewRenderer, NewInputManager}) \<and>
         (\<not> list_all (load_ok e (store_base g)) (load_sequence e (store_base g)) \<longrightarrow>
            fst (init e g) \<noteq> None \<and>
            fst (init e g) = first_error e (store_base g) (load_sequence e (store_base g))) \<and>
         (fst (init e g) \<noteq> None \<longrightarrow> \<not> initialized (snd (init e g))) \<and>
         (fst (init e g) = None \<longrightarrow>
            initialized (snd (init e g)) \<and>
            (\<exists>a. store_load e (store_base g) ''game.json'' = Inr a \<and>
                 gameJSONAsset (snd (init e g)) = Some a \<and>
                 (\<forall>t p d. (t, p) \<in> set (enumerated_types a) \<and> t \<noteq> ''__proto__'' \<and>
                     store_load e (store_base g) p = Inr d \<longrightarrow>
                     gameObjectTypes (snd (init e g)) t = Some d)))"
    using assms
  proof (cases rule: init_cases [of g e])
    case (manifest_fails err)
    from load_sequence_fails [OF manifest_fails(1)] manifest_fails(2) assms show ?thesis
      by simp
  next
    case (type_fails a err)
    have "\<not> list_all (load_ok e (store_base g)) (map snd (enumerated_types a))"
      using type_fails(2) first_error_None_iff [of e "store_base g" "map snd (enumerated_types a)"]
      by simp
    with type_fails first_error_load_sequence [OF type_fails(1)] assms show ?thesis
      by (simp add: load_sequence_ok)
  next
    case (renderer_fails a err)
    have "list_all (load_ok e (store_base g)) (load_sequence e (store_base g))"
      using renderer_fails by (simp add: load_sequence_ok)
    with renderer_fails assms show ?thesis
      by (simp add: attempted_all_ok)
  next
    case (input_fails a r err)
    have "list_all (load_ok e (store_base g)) (load_sequence e (store_base g))"
      using input_fails by (simp add: load_sequence_ok)
    with input_fails assms show ?thesis
      by (simp add: attempted_all_ok)
  next
    case (ok a r im)
    have all: "list_all (load_ok e (store_base g)) (load_sequence e (store_base g))"
      using ok by (simp add: load_sequence_ok)
    have d: "distinct (map fst (enumerated_types a))"
      by (simp add: enumerated_types_def for_in_distinct)
    have look: "\<forall>t p d. (t, p) \<in> set (enumerated_types a) \<and> t \<noteq> ''__proto__'' \<and>
         store_load e (store_base g) p = Inr d \<longrightarrow>
         registered e (store_base g) (enumerated_types a) (gameObjectTypes g) t = Some d"
      using registered_lookup [OF d] by blast
    from all ok look show ?thesis
      by (simp add: attempted_all_ok)
  qed
  from main order show ?thesis by blast
qed

text \<open>
  Evaluation on the example session: in a world where \<open>box.json\<close> is missing, and with
  the manifest whose types are declared as \<open>b\<close>, \<open>2\<close>, \<open>a\<close>, \<open>1\<close>.
\<close>

lemmas run_defs = loadScene_def init_def assetStore_load_def store_base_def unload_current_def
  js_get_def new_Scene_def Scene_load_def afterLoaded_hooks_def forEachGameObject_def
  object_prototype_keys_def Let_def

lemma example_game_main_fields:
  "initialized example_game_main"
  "\<not> loadingScene example_game_main"
  "scene example_game_main =
     Some \<lparr>jsonAssetPath = Own ''main.json'', game = Some ThisGame, active = True, loaded = True,
           gameObjects = [GameObject ''Box'' [GameObject ''Lid'' []], GameObject ''Ball'' []]\<rparr>"
  "gameJSONAsset example_game_main = Some \<lparr>path = ''game.json'', data = example_manifest\<rparr>"
  "renderer example_game_main = Some (Renderer None)"
  "trace example_game_main =
     [AssetStoreLoad ''game.json'', AssetStoreLoad ''box.json'', AssetStoreLoad ''ball.json'',
      NewRenderer, NewInputManager,
      SceneLoadStarted (Own ''main.json''), SceneLoadFinished (Own ''main.json''),
      SceneAfterLoaded (Own ''main.json''), ObjectAfterLoaded ''Box'', ObjectAfterLoaded ''Lid'',
      ObjectAfterLoaded ''Ball'']"
  "discarded example_game_main = []"
  by (simp_all add: example_game_main_def run_defs example_defs enum_defs)

theorem init_loads_types_in_enumeration_order_witness:
  "\<not> initialized example_game \<and>
   fst (init (example_env_of example_manifest [''box.json'']) example_game)
     = Some (AssetNotFound ''box.json'') \<and>
   \<not> initialized (snd (init (example_env_of example_manifest [''box.json'']) example_game)) \<and>
   trace (snd (init (example_env_of example_manifest [''box.json'']) example_game))
     = [AssetStoreLoad ''game.json'', AssetStoreLoad ''box.json''] \<and>
   fst (init (example_env_of indexed_manifest []) example_game) = None \<and>
   initialized (snd (init (example_env_of indexed_manifest []) example_game)) \<and>
   load_sequence (example_env_of indexed_manifest []) (store_base example_game)
     = [''game.json'', ''one.json'', ''two.json'', ''b.json'', ''a.json''] \<and>
   gameObjectTypes (snd (init (example_env_of indexed_manifest []) example_game)) ''2''
     = Some \<lparr>path = ''two.json'', data = empty_json\<rparr> \<and>
   enumerated_types \<lparr>path = ''game.json'', data = example_manifest\<rparr>
     = [(''Box'', ''box.json''), (''Ball'', ''ball.json'')]"
proof -
  have h: "\<not> initialized example_game" by (simp add: example_game_def)
  have f: "fst (init (example_env_of example_manifest [''box.json'']) example_game)
     = Some (AssetNotFound ''box.json'')"
    by (simp add: run_defs example_defs enum_defs)
  have t: "trace (snd (init (example_env_of example_manifest [''box.json'']) example_game))
     = [AssetStoreLoad ''game.json'', AssetStoreLoad ''box.json'']"
    by (simp add: run_defs example_defs enum_defs)
  have s: "fst (init (example_env_of indexed_manifest []) example_game) = None"
    by (simp add: run_defs example_defs indexed_manifest_def enum_defs)
  have l: "store_load (example_env_of indexed_manifest []) (store_base example_game) ''game.json''
     = Inr \<lparr>path = ''game.json'', data = indexed_manifest\<rparr>"
    by (simp add: example_env_of_def)
  have en: "enumerated_types \<lparr>path = ''game.json'', data = indexed_manifest\<rparr>
     = [(''1'', ''one.json''), (''2'', ''two.json''), (''b'', ''b.json''), (''a'', ''a.json'')]"
    by (simp add: enumerated_types_def declared_types_def indexed_manifest_def enum_defs)
  have two: "store_load (example_env_of indexed_manifest []) (store_base example_game) ''two.json''
     = Inr \<lparr>path = ''two.json'', data = empty_json\<rparr>"
    by (simp add: example_env_of_def)
  have dn: "distinct (map fst (declared_types \<lparr>path = ''game.json'', data = example_manifest\<rparr>)) \<and>
     list_all (\<lambda>k. \<not> is_array_index k)
       (map fst (declared_types \<lparr>path = ''game.json'', data = example_manifest\<rparr>))"
    by (simp add: declared_types_def example_manifest_def enum_defs)
  have l0: "store_load example_env (store_base example_game) ''game.json''
     = Inr \<lparr>path = ''game.json'', data = example_manifest\<rparr>"
    by (simp add: example_env_def example_env_of_def)
  note inst = init_loads_types_in_enumeration_order [OF h]
  from inst [of "example_env_of example_manifest [''box.json'']"] f
  have u: "\<not> initialized (snd (init (example_env_of example_manifest [''box.json'']) example_game))"
    by simp
  from inst [of "example_env_of indexed_manifest []"] s
  have i: "initialized (snd (init (example_env_of indexed_manifest []) example_game))"
    by simp
  from inst [of "example_env_of indexed_manifest []"] l en
  have ls: "load_sequence (example_env_of indexed_manifest []) (store_base example_game)
     = [''game.json'', ''one.json'', ''two.json'', ''b.json'', ''a.json'']"
    by simp
  from inst [of "example_env_of indexed_manifest []"] s l en two
  have r: "gameObjectTypes (snd (init (example_env_of indexed_manifest []) example_game)) ''2''
     = Some \<lparr>path = ''two.json'', data = empty_json\<rparr>"
    by simp
  from inst [of example_env] l0 dn
  have d: "enumerated_types \<lparr>path = ''game.json'', data = example_manifest\<rparr>
     = [(''Box'', ''box.json''), (''Ball'', ''ball.json'')]"
    by (simp add: declared_types_def example_manifest_def)
  from h f u t s i ls r d show ?thesis by simp
qed

text \<open>
  The claim as stated says declaration order. With the types declared as \<open>b\<close>, \<open>2\<close>,
  \<open>a\<close>, \<open>1\<close>, the descriptors are loaded in the order \<open>1\<close>, \<open>2\<close>, \<open>b\<close>, \<open>a\<close>.
\<close>

theorem init_declaration_order_counterexample:
  "declaredGameObjectTypes indexed_manifest
     = Some [(''b'', ''b.json''), (''2'', ''two.json''), (''a'', ''a.json''), (''1'', ''one.json'')] \<and>
   fst (init (example_env_of indexed_manifest []) example_game) = None \<and>
   trace (snd (init (example_env_of indexed_manifest []) example_game))
     = [AssetStoreLoad ''game.json'', AssetStoreLoad ''one.json'', AssetStoreLoad ''two.json'',
        AssetStoreLoad ''b.json'', AssetStoreLoad ''a.json'', NewRenderer, NewInputManager]"
  by (simp add: run_defs example_defs indexed_manifest_def enum_defs)

section \<open>Switching scenes\<close>


lemma switch_scene_failure_keeps_guard:
  "loadingScene g \<Longrightarrow> fst (switch_scene e name g) \<noteq> None \<Longrightarrow>
   loadingScene (snd (switch_scene e name g))"
  unfolding switch_scene_def Let_def
  by (simp add: unload_current_fields split: option.splits sum.splits if_splits)

text \<open>
  Every failure of \<open>loadScene\<close> behind the guard leaves the flag set: the non-string name,
  a failing initialisation, an unknown scene, and a failing load of the scene.
\<close>

lemma loadScene_failure_keeps_guard:
  assumes "\<not> loadingScene g" and "fst (loadScene e sceneName g) \<noteq> None"
  shows "loadingScene (snd (loadScene e sceneName g))"
proof (cases sceneName)
  case JNonString
  with assms show ?thesis by (simp add: loadScene_unfold)
next
  case (JString name)
  define g1 where "g1 = g\<lparr>loadingScene := True\<rparr>"
  have l1: "loadingScene g1" by (simp add: g1_def)
  show ?thesis
  proof (cases "initialized g")
    case True
    then have eq: "loadScene e sceneName g = switch_scene e name g1"
      using assms(1) JString by (simp add: loadScene_unfold g1_def)
    from switch_scene_failure_keeps_guard [OF l1, of e name] assms(2) show ?thesis
      unfolding eq by simp
  next
    case False
    obtain r g2 where i: "init e g1 = (r, g2)" by (cases "init e g1")
    have l2: "loadingScene g2" using init_frame(1) [of e g1] i l1 by simp
    show ?thesis
    proof (cases r)
      case None
      then have eq: "loadScene e sceneName g = switch_scene e name g2"
        using assms(1) JString False i by (simp add: loadScene_unfold g1_def)
      from switch_scene_failure_keeps_guard [OF l2, of e name] assms(2) show ?thesis
        unfolding eq by simp
    next
      case (Some err)
      then have eq: "loadScene e sceneName g = (Some err, g2)"
        using assms(1) JString False i by (simp add: loadScene_unfold g1_def)
      show ?thesis unfolding eq using l2 by simp
    qed
  qed
qed

lemma loadScene_initialized:
  "initialized g \<Longrightarrow> \<not> loadingScene g \<Longrightarrow>
   loadScene e (JString name) g = switch_scene e name (g\<lparr>loadingScene := True\<rparr>)"
  by (simp add: loadScene_unfold)


text \<open>
  Claim C4. When \<open>loadScene\<close> replaces the scene of an initialised session, the calls it
  makes are, in this order: the pre-unload hook of the old scene, the pre-unload hook of
  each of its game objects, the load of the new scene from start to finish, the post-load
  hook of the new scene, the post-load hook of each of its game objects. So every
  pre-unload hook of the old scene precedes every call on the new scene, and every
  post-load hook follows the end of the load.
\<close>

theorem loadScene_hook_order:
  assumes "initialized g" and "scene g = Some old" and "loadScene e (JString name) g = (None, g')"
  shows "\<exists>new. scene g' = Some new \<and> loaded new \<and>
           trace g' = trace g
             @ SceneBeforeUnloaded (jsonAssetPath old)
               # map (\<lambda>obj. ObjectBeforeUnloaded (obj_name obj)) (forEachGameObject old)
             @ [SceneLoadStarted (jsonAssetPath new), SceneLoadFinished (jsonAssetPath new)]
             @ SceneAfterLoaded (jsonAssetPath new)
               # map (\<lambda>obj. ObjectAfterLoaded (obj_name obj)) (forEachGameObject new)"
proof -
  have nl: "\<not> loadingScene g"
    using assms(3) by (auto simp add: loadScene_def)
  define g1 where "g1 = g\<lparr>loadingScene := True\<rparr>"
  have sw: "switch_scene e name g1 = (None, g')"
    using assms(1,3) nl by (simp add: loadScene_initialized g1_def)
  have sc1: "scene g1 = Some old" "trace g1 = trace g" using assms(2) by (simp_all add: g1_def)
  obtain a where a: "gameJSONAsset g1 = Some a"
    using sw by (cases "gameJSONAsset g1")
      (auto simp add: switch_scene_def Let_def unload_current_fields)
  obtain sc where sc: "scenes (data a) = Some sc"
    using sw a by (cases "scenes (data a)")
      (auto simp add: switch_scene_def Let_def unload_current_fields)
  from a sc show ?thesis
  proof (cases rule: switch_scene_cases [of g1 a sc name e])
    case unknown
    with sw show ?thesis by simp
  next
    case (load_fails err)
    with sw show ?thesis by simp
  next
    case (ok objs s')
    from ok(4) sw have g': "g' = (unload_current g1)\<lparr>scene := Some s', loadingScene := False,
              trace := trace g1 @ unload_hooks (scene g1)
                @ [SceneLoadStarted (js_get (map_of sc) name),
                   SceneLoadFinished (js_get (map_of sc) name)]
                @ afterLoaded_hooks s'\<rparr>" by simp
    have "scene g' = Some s'" "loaded s'" "jsonAssetPath s' = js_get (map_of sc) name"
      by (simp_all add: g' ok(3))
    moreover have "trace g' = trace g
             @ SceneBeforeUnloaded (jsonAssetPath old)
               # map (\<lambda>obj. ObjectBeforeUnloaded (obj_name obj)) (forEachGameObject old)
             @ [SceneLoadStarted (jsonAssetPath s'), SceneLoadFinished (jsonAssetPath s')]
             @ SceneAfterLoaded (jsonAssetPath s')
               # map (\<lambda>obj. ObjectAfterLoaded (obj_name obj)) (forEachGameObject s')"
      by (simp add: g' sc1 unload_hooks_def afterLoaded_hooks_def ok(3))
    ultimately show ?thesis by blast
  qed
qed

theorem loadScene_hook_order_witness:
  "initialized example_game_main \<and>
   fst (loadScene example_env (JString ''main'') example_game_main) = None \<and>
   trace (snd (loadScene example_env (JString ''main'') example_game_main)) =
     trace example_game_main @
       [SceneBeforeUnloaded (Own ''main.json''),
        ObjectBeforeUnloaded ''Box'', ObjectBeforeUnloaded ''Lid'', ObjectBeforeUnloaded ''Ball'',
        SceneLoadStarted (Own ''main.json''), SceneLoadFinished (Own ''main.json''),
        SceneAfterLoaded (Own ''main.json''),
        ObjectAfterLoaded ''Box'', ObjectAfterLoaded ''Lid'', ObjectAfterLoaded ''Ball'']"
proof -
  define g' where "g' = snd (loadScene example_env (JString ''main'') example_game_main)"
  have r: "fst (loadScene example_env (JString ''main'') example_game_main) = None"
    by (simp add: loadScene_def example_game_main_fields unload_current_def js_get_def
        example_manifest_def new_Scene_def Scene_load_def example_env_def example_env_of_def
        Let_def object_prototype_keys_def)
  then have run: "loadScene example_env (JString ''main'') example_game_main = (None, g')"
    by (simp add: g'_def prod_eq_iff)
  have sc: "scene g' =
     Some \<lparr>jsonAssetPath = Own ''main.json'', game = Some ThisGame, active = True, loaded = True,
           gameObjects = [GameObject ''Box'' [GameObject ''Lid'' []], GameObject ''Ball'' []]\<rparr>"
    by (simp add: g'_def loadScene_def example_game_main_fields unload_current_def js_get_def
        example_manifest_def new_Scene_def Scene_load_def example_env_def example_env_of_def
        Let_def object_prototype_keys_def)
  from loadScene_hook_order [OF example_game_main_fields(1) example_game_main_fields(3) run]
  have "trace g' = trace example_game_main @
       [SceneBeforeUnloaded (Own ''main.json''),
        ObjectBeforeUnloaded ''Box'', ObjectBeforeUnloaded ''Lid'', ObjectBeforeUnloaded ''Ball'',
        SceneLoadStarted (Own ''main.json''), SceneLoadFinished (Own ''main.json''),
        SceneAfterLoaded (Own ''main.json''),
        ObjectAfterLoaded ''Box'', ObjectAfterLoaded ''Lid'', ObjectAfterLoaded ''Ball'']"
    unfolding sc by (auto simp add: forEachGameObject_def)
  with r example_game_main_fields(1) show ?thesis by (simp add: g'_def)
qed

text \<open>
  Claim C2, as the code has it. On an initialised session with no load in flight,
  \<open>loadScene\<close> with a name for which the manifest's scenes yield no path fails with
  \<open>UnknownScene\<close>, and by then it has unloaded the scene that was active: the pre-unload
  hooks of the scene and of its game objects have been called, the scene has been
  detached and deactivated, and the slot is empty. The name is resolved only after the
  current scene is unloaded.
\<close>

theorem loadScene_unknown_scene_unloads:
  assumes "\<not> loadingScene g" and "initialized g"
    and "gameJSONAsset g = Some a" and "scenes (data a) = Some sc"
    and "\<not> truthy (js_get (map_of sc) name)"
  shows "fst (loadScene e (JString name) g) = Some (UnknownScene name) \<and>
         scene (snd (loadScene e (JString name) g)) = None \<and>
         trace (snd (loadScene e (JString name) g)) = trace g @ unload_hooks (scene g) \<and>
         discarded (snd (loadScene e (JString name) g)) =
           discarded g @
             (case scene g of None \<Rightarrow> [] | Some old \<Rightarrow> [old\<lparr>game := None, active := False\<rparr>])"
proof -
  define g1 where "g1 = g\<lparr>loadingScene := True\<rparr>"
  have eq: "loadScene e (JString name) g = switch_scene e name g1"
    using assms(1,2) by (simp add: loadScene_initialized g1_def)
  have a: "gameJSONAsset g1 = Some a" using assms(3) by (simp add: g1_def)
  from a assms(4) show ?thesis
  proof (cases rule: switch_scene_cases [of g1 a sc name e])
    case unknown
    show ?thesis unfolding eq unknown(2)
      by (simp add: unload_current_fields g1_def unload_current_def unload_hooks_def
          split: option.splits)
  next
    case (load_fails err)
    with assms(5) show ?thesis by simp
  next
    case (ok objs s')
    with assms(5) show ?thesis by simp
  qed
qed

theorem loadScene_unknown_scene_unloads_witness:
  "\<not> loadingScene example_game_main \<and> initialized example_game_main \<and>
   \<not> truthy (js_get (map_of [(''main'', ''main.json''), (''broken'', ''broken.json'')]) ''missing'') \<and>
   fst (loadScene example_env (JString ''missing'') example_game_main)
     = Some (UnknownScene ''missing'') \<and>
   scene (snd (loadScene example_env (JString ''missing'') example_game_main)) = None \<and>
   trace (snd (loadScene example_env (JString ''missing'') example_game_main)) =
     trace example_game_main @
       [SceneBeforeUnloaded (Own ''main.json''),
        ObjectBeforeUnloaded ''Box'', ObjectBeforeUnloaded ''Lid'', ObjectBeforeUnloaded ''Ball'']"
proof -
  have t: "\<not> truthy (js_get (map_of [(''main'', ''main.json''), (''broken'', ''broken.json'')])
             ''missing'')"
    by (simp add: js_get_def object_prototype_keys_def)
  have s: "scenes (data \<lparr>path = ''game.json'', data = example_manifest\<rparr>)
             = Some [(''main'', ''main.json''), (''broken'', ''broken.json'')]"
    by (simp add: example_manifest_def)
  from loadScene_unknown_scene_unloads [OF example_game_main_fields(2)
      example_game_main_fields(1) example_game_main_fields(4) s t, of example_env]
    example_game_main_fields(1,2) t
  show ?thesis
    by (simp add: unload_hooks_def example_game_main_fields(3) forEachGameObject_def)
qed

text \<open>
  The claim as stated asks that the active scene be left untouched. On the example
  session with \<open>main\<close> loaded, \<open>loadScene('missing')\<close> fails with \<open>UnknownScene\<close>, and
  the scene is gone from the slot, its hooks have been called, and it is detached and
  inactive.
\<close>

theorem loadScene_unknown_scene_counterexample:
  "fst (loadScene example_env (JString ''missing'') example_game_main)
     = Some (UnknownScene ''missing'') \<and>
   scene example_game_main \<noteq> None \<and>
   scene (snd (loadScene example_env (JString ''missing'') example_game_main)) = None \<and>
   trace (snd (loadScene example_env (JString ''missing'') example_game_main)) =
     trace example_game_main @
       [SceneBeforeUnloaded (Own ''main.json''),
        ObjectBeforeUnloaded ''Box'', ObjectBeforeUnloaded ''Lid'', ObjectBeforeUnloaded ''Ball''] \<and>
   map game (discarded (snd (loadScene example_env (JString ''missing'') example_game_main)))
     = [None] \<and>
   map active (discarded (snd (loadScene example_env (JString ''missing'') example_game_main)))
     = [False]"
  by (simp add: loadScene_def example_game_main_fields unload_current_def js_get_def
        example_manifest_def forEachGameObject_def Let_def object_prototype_keys_def)

section \<open>What the scene slot holds after a failed load\<close>

text \<open>
  When the load of the new scene fails, \<open>loadScene\<close> fails with the error of the load and
  the scene, constructed and not loaded, is left in the slot.
\<close>

lemma switch_scene_load_failure:
  assumes "gameJSONAsset g = Some a" and "scenes (data a) = Some sc"
    and "truthy (js_get (map_of sc) name)"
    and "build_scene e (js_get (map_of sc) name) = Inl err"
  shows "fst (switch_scene e name g) = Some err \<and>
         scene (snd (switch_scene e name g)) = Some (new_Scene (js_get (map_of sc) name))"
  using assms(1,2)
proof (cases rule: switch_scene_cases [of g a sc name e])
  case unknown
  with assms(3) show ?thesis by simp
next
  case (load_fails err')
  with assms(4) show ?thesis by simp
next
  case (ok objs s')
  with assms(4) show ?thesis by simp
qed

lemma example_game_broken_fields:
  "initialized example_game_broken"
  "loadingScene example_game_broken"
  "scene example_game_broken =
     Some \<lparr>jsonAssetPath = Own ''broken.json'', game = None, active = False, loaded = False,
           gameObjects = []\<rparr>"
  "gameJSONAsset example_game_broken = Some \<lparr>path = ''game.json'', data = example_manifest\<rparr>"
  "renderer example_game_broken = Some (Renderer None)"
  "assetStore example_game_broken = Some (AssetStore (BaseURL ''assets''))"
  "trace example_game_broken =
     [AssetStoreLoad ''game.json'', AssetStoreLoad ''box.json'', AssetStoreLoad ''ball.json'',
      NewRenderer, NewInputManager, SceneLoadStarted (Own ''broken.json'')]"
  by (simp_all add: example_game_broken_def run_defs example_defs enum_defs)

text \<open>
  Claim C3. The claim asks that a scene whose load failed never be in the slot. On the
  example session, \<open>loadScene('broken')\<close> fails while loading the scene, and the scene
  stays in the slot, not loaded and with no post-load hook called: the slot is as it was
  made before the load started. \<open>play\<close>, which loads a scene only when the slot is
  empty, then loads nothing and starts the renderer.
\<close>

theorem loadScene_leaves_failed_scene_in_slot:
  "fst (loadScene example_env (JString ''broken'') example_game)
     = Some (SceneLoadError ''broken.json'') \<and>
   scene example_game_broken
     = Some \<lparr>jsonAssetPath = Own ''broken.json'', game = None, active = False, loaded = False,
              gameObjects = []\<rparr> \<and>
   SceneLoadFinished (Own ''broken.json'') \<notin> set (trace example_game_broken) \<and>
   SceneAfterLoaded (Own ''broken.json'') \<notin> set (trace example_game_broken) \<and>
   fst (play example_env example_game_broken) = None \<and>
   scene (snd (play example_env example_game_broken)) = scene example_game_broken \<and>
   trace (snd (play example_env example_game_broken)) = trace example_game_broken @ [RendererPlay]"
proof -
  have f: "fst (loadScene example_env (JString ''broken'') example_game)
     = Some (SceneLoadError ''broken.json'')"
    by (simp add: run_defs example_defs enum_defs)
  have p: "play example_env example_game_broken
     = (None, example_game_broken\<lparr>trace := trace example_game_broken @ [RendererPlay]\<rparr>)"
    by (simp add: play_def example_game_broken_fields example_env_def example_env_of_def)
  show ?thesis
    unfolding p using f by (simp add: example_game_broken_fields)
qed

section \<open>Playing\<close>






section \<open>Pausing\<close>




end
